theory Spec2Isabelle
  imports Complex_Main "HOL-Library.Word" "HOL-Library.Log_Nat"
begin

unbundle bit_operations_syntax

section \<open>Shared rendering context\<close>

text \<open>
  Scene nodes are opaque handles. The scene background, the camera's layer mask and the
  class-level (static) property \<open>OutlineManager.lastDepthPassTime\<close> are shared by every
  manager instance and every consumer effect, so they live in one record that is threaded
  through all calls. The \<open>trace\<close> lists the calls made on external collaborators (the depth
  pass, the mask pass, selections), in the order in which the code makes them.
\<close>

type_synonym obj = nat

datatype exn = RenderFailure | TypeError

datatype 'a outcome = Returned 'a | Thrown exn

datatype event =
    SetVisible int bool
  | DepthRender
  | MaskRender "32 word"
  | OutlineRender
  | BlurRender
  | ClearUnusedCall "obj list" "int option"

record world =
  background :: "nat option"
  camera_mask :: "32 word"
  lastDepthPassTime :: "int option"
  trace :: "event list"

text \<open>
  \<open>camera.layers.set(layer)\<close> of the 3D engine: the mask becomes the single bit
  \<open>1 << layer\<close>; JavaScript takes the shift count modulo 32.
\<close>

definition layers_set :: "int \<Rightarrow> 32 word" where
  "layers_set l = push_bit (nat (l mod 32)) 1"

section \<open>OutlineManager\<close>

text \<open>
  \<open>selectionsByLayer\<close> is a JavaScript \<open>Map\<close> from layer number to \<open>Selection\<close> (a \<open>Set\<close> of
  scene nodes): an association list in insertion order whose values are the members in
  insertion order. \<open>selection_layer\<close> is \<open>this.selection.layer\<close>, the layer of the default
  selection; \<open>currentLayer\<close> is \<open>None\<close> for \<open>null\<close>/\<open>undefined\<close>. The class \<open>Selection\<close>
  itself is not among the sources: its \<open>add\<close>, \<open>delete\<close> and \<open>has\<close> are those of \<open>Set\<close>, and a
  call of its \<open>setVisible\<close> is recorded in the trace.
\<close>

record manager =
  selectionsByLayer :: "(int \<times> obj list) list"
  selection_layer :: int
  currentLayer :: "int option"
  needsUpdate :: bool
  resolutionScale :: rat

text \<open>
  What the environment does during one call of \<open>update\<close>: the value \<open>Date.now()\<close> returns
  (milliseconds since the epoch) and whether the external depth render and mask render
  throw.
\<close>

record call =
  now :: int
  depth_throws :: bool
  mask_throws :: bool

definition hasObjects :: "manager \<Rightarrow> bool" where
  "hasObjects m = list_ex (\<lambda>e. snd e \<noteq> []) (selectionsByLayer m)"

text \<open>
  The guard \<open>!OutlineManager.lastDepthPassTime || now - OutlineManager.lastDepthPassTime > 16\<close>.
  JavaScript's \<open>!x\<close> holds for \<open>undefined\<close> and for the number \<open>0\<close>.
\<close>

definition token_unset :: "int option \<Rightarrow> bool" where
  "token_unset tok = (case tok of None \<Rightarrow> True | Some t \<Rightarrow> t = 0)"

definition depth_due :: "int option \<Rightarrow> int \<Rightarrow> bool" where
  "depth_due tok nw = (case tok of None \<Rightarrow> True | Some t \<Rightarrow> t = 0 \<or> nw - t > 16)"

definition setVisible_all :: "bool \<Rightarrow> manager \<Rightarrow> event list" where
  "setVisible_all v m = map (\<lambda>e. SetVisible (fst e) v) (selectionsByLayer m)"

text \<open>Lines 199-229 of \<open>update\<close>: the depth render, guarded by the static token.\<close>

definition depth_stage :: "call \<Rightarrow> manager \<Rightarrow> world \<Rightarrow> unit outcome \<times> world" where
  "depth_stage c m w =
     (if depth_due (lastDepthPassTime w) (now c) then
        let bg = background w;
            w1 = w\<lparr>background := None\<rparr>;
            w2 = w1\<lparr>trace := trace w1 @ setVisible_all False m @ [DepthRender]\<rparr>
        in if depth_throws c then (Thrown RenderFailure, w2)
           else (Returned (),
                 w2\<lparr>trace := trace w2 @ setVisible_all True m,
                    lastDepthPassTime := Some (now c),
                    background := bg\<rparr>)
      else (Returned (), w))"

text \<open>\<open>camera.layers.set(l); this.maskPass.render(renderer, this.renderTargetMask)\<close>.\<close>

definition render_mask_at :: "int \<Rightarrow> call \<Rightarrow> world \<Rightarrow> unit outcome \<times> world" where
  "render_mask_at l c w =
     (let w1 = w\<lparr>camera_mask := layers_set l\<rparr>;
          w2 = w1\<lparr>trace := trace w1 @ [MaskRender (camera_mask w1)]\<rparr>
      in (if mask_throws c then Thrown RenderFailure else Returned (), w2))"

text \<open>
  The layer rendered by the first branch of the mask stage, if any: \<open>currentLayer\<close> is set,
  the map has it, and its selection is not empty.
\<close>

definition current_target :: "manager \<Rightarrow> int option" where
  "current_target m =
     (case currentLayer m of
        None \<Rightarrow> None
      | Some cl \<Rightarrow>
          (case map_of (selectionsByLayer m) cl of
             None \<Rightarrow> None
           | Some sel \<Rightarrow> if sel \<noteq> [] then Some cl else None))"

text \<open>Lines 234-265 of \<open>update\<close>: the mask render and the restore of the camera mask.\<close>

definition mask_stage :: "call \<Rightarrow> manager \<Rightarrow> world \<Rightarrow> unit outcome \<times> world" where
  "mask_stage c m w =
     (let mask = camera_mask w;
          l = (case current_target m of Some cl \<Rightarrow> cl | None \<Rightarrow> selection_layer m)
      in case render_mask_at l c w of
           (Thrown e, w1) \<Rightarrow> (Thrown e, w1)
         | (Returned u, w1) \<Rightarrow> (Returned (), w1\<lparr>camera_mask := mask\<rparr>))"

definition update :: "call \<Rightarrow> world \<Rightarrow> manager \<Rightarrow> bool outcome \<times> world \<times> manager" where
  "update c w m =
     (if \<not> needsUpdate m \<and> \<not> hasObjects m then (Returned False, w, m)
      else case depth_stage c m w of
             (Thrown e, w1) \<Rightarrow> (Thrown e, w1, m)
           | (Returned u, w1) \<Rightarrow>
               (case mask_stage c m w1 of
                  (Thrown e, w2) \<Rightarrow> (Thrown e, w2, m)
                | (Returned u', w2) \<Rightarrow> (Returned True, w2, m\<lparr>needsUpdate := False\<rparr>)))"

text \<open>
  Several \<open>update\<close> calls in a row, made by any consumers on any manager instances: each
  entry gives the environment of the call and the state of the instance it is made on.
  An exception ends the call it is raised in, not the sequence (the composer catches it
  per pass), so the shared context is threaded on in both cases.
\<close>

fun run_updates :: "(call \<times> manager) list \<Rightarrow> world \<Rightarrow> world" where
  "run_updates [] w = w"
| "run_updates (cm # cms) w = run_updates cms (fst (snd (update (fst cm) w (snd cm))))"

definition depth_renders :: "world \<Rightarrow> nat" where
  "depth_renders w = length (filter (\<lambda>e. e = DepthRender) (trace w))"

definition is_mask_render :: "event \<Rightarrow> bool" where
  "is_mask_render e = (case e of MaskRender k \<Rightarrow> True | _ \<Rightarrow> False)"

definition mask_renders :: "world \<Rightarrow> nat" where
  "mask_renders w = length (filter is_mask_render (trace w))"

definition proceeds :: "manager \<Rightarrow> bool" where
  "proceeds m = (needsUpdate m \<or> hasObjects m)"

text \<open>
  \<open>clearUnused\<close>, lines 280-299. The inner loop walks a snapshot \<open>[...selection]\<close> and deletes
  from the live selection every object that \<open>activeObjects\<close> does not have, setting
  \<open>needsUpdate\<close> on each deletion.
\<close>

fun delete_inactive :: "obj list \<Rightarrow> obj list \<Rightarrow> obj list \<times> bool \<Rightarrow> obj list \<times> bool" where
  "delete_inactive active [] sn = sn"
| "delete_inactive active (x # xs) sn =
     (if \<not> List.member active x
      then delete_inactive active xs (removeAll x (fst sn), True)
      else delete_inactive active xs sn)"

text \<open>
  The outer loop over \<open>selectionsByLayer.entries()\<close>; \<open>exceptLayer\<close> is \<open>None\<close> for
  \<open>undefined\<close>.
\<close>

fun clear_entries ::
  "obj list \<Rightarrow> int option \<Rightarrow> (int \<times> obj list) list \<Rightarrow> bool \<Rightarrow> (int \<times> obj list) list \<times> bool" where
  "clear_entries active ex [] nu = ([], nu)"
| "clear_entries active ex (e # es) nu =
     (if ex \<noteq> None \<and> Some (fst e) = ex
      then (let r = clear_entries active ex es nu in (e # fst r, snd r))
      else (let d = delete_inactive active (snd e) (snd e, nu);
                r = clear_entries active ex es (snd d)
            in ((fst e, fst d) # fst r, snd r)))"

definition clearUnused :: "obj list \<Rightarrow> int option \<Rightarrow> manager \<Rightarrow> manager" where
  "clearUnused active ex m =
     (let r = clear_entries active ex (selectionsByLayer m) (needsUpdate m)
      in m\<lparr>selectionsByLayer := fst r, needsUpdate := snd r\<rparr>)"










definition getSelectionForLayer :: "int \<Rightarrow> manager \<Rightarrow> manager" where
  "getSelectionForLayer layer m =
     (if map_of (selectionsByLayer m) layer = None
      then m\<lparr>selectionsByLayer := selectionsByLayer m @ [(layer, [])]\<rparr>
      else m)"

definition setNeedsUpdate :: "manager \<Rightarrow> manager" where
  "setNeedsUpdate m = m\<lparr>needsUpdate := True\<rparr>"

section \<open>SharedOutlineEffect\<close>

text \<open>
  The consumer effect and the static properties of its class, which all instances share.
  \<open>None\<close> stands for \<open>undefined\<close> in \<open>activeObjects\<close> and \<open>updateCounter\<close>, and for
  \<open>null\<close>/\<open>undefined\<close> in \<open>static_currentLayer\<close>.
\<close>

record effect =
  eff_selection :: "obj list"
  selectionLayer :: int
  blur_enabled :: bool

record statics =
  activeObjects :: "obj list option"
  updateCounter :: "int option"
  static_currentLayer :: "int option"

definition set_add :: "obj \<Rightarrow> obj list \<Rightarrow> obj list" where
  "set_add x xs = (if List.member xs x then xs else xs @ [x])"

fun modify_first :: "int \<Rightarrow> (obj list \<Rightarrow> obj list) \<Rightarrow> (int \<times> obj list) list \<Rightarrow> (int \<times> obj list) list" where
  "modify_first l f [] = []"
| "modify_first l f (e # es) = (if fst e = l then (fst e, f (snd e)) # es else e # modify_first l f es)"

text \<open>Lines 677-687: copy the effect's selection into the manager's selection of its layer.\<close>

definition register_object :: "int \<Rightarrow> obj \<Rightarrow> manager \<Rightarrow> manager" where
  "register_object layer x m =
     (case map_of (selectionsByLayer m) layer of
        None \<Rightarrow> m
      | Some sel \<Rightarrow>
          if \<not> List.member sel x
          then setNeedsUpdate (m\<lparr>selectionsByLayer := modify_first layer (\<lambda>s. s @ [x]) (selectionsByLayer m)\<rparr>)
          else m)"

definition register_selection :: "effect \<Rightarrow> manager \<Rightarrow> manager" where
  "register_selection e m =
     fold (register_object (selectionLayer e)) (eff_selection e)
       (getSelectionForLayer (selectionLayer e) m)"

text \<open>Lines 705-710: the cleanup, run when the counter read after the increment is 2.\<close>

definition cleanup :: "int \<Rightarrow> effect \<Rightarrow> world \<times> statics \<times> manager \<Rightarrow> world \<times> statics \<times> manager" where
  "cleanup renderCounter e s =
     (let w = fst s; st = fst (snd s); m = snd (snd s)
      in if renderCounter = 2 then
           (let active = (case activeObjects st of None \<Rightarrow> [] | Some a \<Rightarrow> a)
            in (w\<lparr>trace := trace w @ [ClearUnusedCall active (Some (selectionLayer e))]\<rparr>,
                st\<lparr>activeObjects := Some [], updateCounter := Some 0, static_currentLayer := None\<rparr>,
                clearUnused active (Some (selectionLayer e)) m))
         else s)"

text \<open>
  What the environment does during one call of \<open>SharedOutlineEffect.update\<close>: the
  environment of the manager's \<open>update\<close>, and whether the effect's own outline render and
  blur render throw.
\<close>

record effect_call =
  manager_call :: call
  outline_throws :: bool
  blur_throws :: bool

text \<open>
  \<open>SharedOutlineEffect.update\<close>. The pulse uniform and the animation time are floating-point
  shader inputs and are left out; the outline and blur renders are recorded in the trace.
  Nothing in the method catches an exception, so a throwing render ends the call before
  the cleanup.
\<close>

definition effect_update ::
  "effect_call \<Rightarrow> effect \<Rightarrow> world \<times> statics \<times> manager \<Rightarrow>
   unit outcome \<times> world \<times> statics \<times> manager" where
  "effect_update c e s =
     (let w = fst s; st = fst (snd s); m = snd (snd s);
          active0 = (case activeObjects st of None \<Rightarrow> [] | Some a \<Rightarrow> a);
          counter0 = (case updateCounter st of None \<Rightarrow> 0 | Some k \<Rightarrow> k);
          renderCounter = counter0 + 1;
          m1 = m\<lparr>currentLayer := Some (selectionLayer e)\<rparr>;
          st1 = st\<lparr>activeObjects := Some (fold set_add (eff_selection e) active0),
                  updateCounter := Some renderCounter,
                  static_currentLayer := Some (selectionLayer e)\<rparr>
      in if eff_selection e \<noteq> [] then
           (case update (manager_call c) w (register_selection e m1) of
              (Thrown x, w2, m2) \<Rightarrow> (Thrown x, w2, st1, m2)
            | (Returned b, w2, m2) \<Rightarrow>
                (let w3 = w2\<lparr>trace := trace w2 @ [OutlineRender]\<rparr>
                 in if outline_throws c then (Thrown RenderFailure, w3, st1, m2)
                    else if blur_enabled e then
                      (let w4 = w3\<lparr>trace := trace w3 @ [BlurRender]\<rparr>
                       in if blur_throws c then (Thrown RenderFailure, w4, st1, m2)
                          else (Returned (), cleanup renderCounter e (w4, st1, m2)))
                    else (Returned (), cleanup renderCounter e (w3, st1, m2))))
         else (Returned (), cleanup renderCounter e (w, st1, m1)))"

definition clear_calls :: "world \<Rightarrow> event list" where
  "clear_calls w = filter (\<lambda>e. case e of ClearUnusedCall a l \<Rightarrow> True | _ \<Rightarrow> False) (trace w)"

section \<open>EffectComposer\<close>

text \<open>
  Passes are objects on a heap: the composer's list holds references, and the same pass
  can be referenced more than once. A pass the user constructed is \<open>UserPass k\<close>; a pass
  the composer constructs itself in \<open>setMRTRenderPass\<close> is \<open>MRTPass k\<close>.
\<close>

datatype pass_ref = UserPass nat | MRTPass nat

datatype pass_class =
    RenderPassC | DepthPassC | SharedDepthPassC | MRTRenderPassC | EffectPassC | MaskPassC
  | OtherPassC

text \<open>
  The fields of a pass that the composer reads or writes. \<open>p_depthTexture\<close> is the handle
  last given to \<open>setDepthTexture\<close> (what \<open>getDepthTexture\<close> returns); \<open>clearPass_enabled\<close> is
  \<open>pass.clearPass.enabled\<close> of a mask pass; \<open>render_throws\<close> says whether the pass's \<open>render\<close>
  throws when called; \<open>renderTargetMRT\<close> is \<open>None\<close> for \<open>null\<close> and \<open>Some n\<close> for a render
  target with \<open>n\<close> textures.
\<close>

record pass =
  cls :: pass_class
  enabled :: bool
  needsSwap :: bool
  needsDepthTexture :: bool
  renderToScreen :: bool
  clearPass_enabled :: bool
  p_depthTexture :: "nat option"
  p_size :: "(int \<times> int) option"
  p_initialized :: bool
  render_throws :: bool
  isWebGL2Supported :: bool
  isMRTSupported :: bool
  renderTargetMRT :: "nat option"

record renderer =
  drawingBufferSize :: "int \<times> int"
  isWebGL2 :: bool
  draw_buffers_extension :: bool

text \<open>
  The result of \<open>new WebGLRenderTarget(w, h, {count: 2})\<close>: the constructor throws, or it
  returns a target whose \<open>textures\<close> property is missing (\<open>None\<close>) or an array of \<open>n\<close>
  textures.
\<close>

datatype alloc_result = AllocThrows | AllocTextures "nat option"

text \<open>
  What the environment does during one \<open>addPass\<close>: whether constructing the
  \<open>MRTRenderPass\<close> throws; whether the query
  \<open>renderer.getContext().getContextAttributes().alpha\<close> throws in \<open>setMRTRenderPass\<close>
  (line 571) and in \<open>addPass\<close> itself (line 657), which it does with a \<open>TypeError\<close> when
  the context is lost and \<open>getContextAttributes\<close> returns null; and the results of the test
  allocation in \<open>initialize\<close> and of the allocation in \<open>createRenderTargets\<close>.
\<close>

record mrt_env =
  ctor_throws :: bool
  mrt_context_throws :: bool
  context_throws :: bool
  test_alloc :: alloc_result
  target_alloc :: alloc_result

record render_call =
  rc_index :: nat
  rc_pass :: pass_ref
  rc_input :: nat
  rc_output :: nat
  rc_stencil :: bool
  rc_shared :: bool

datatype cevent = PassRender render_call | ClearDepth | LogError

text \<open>
  The composer. Buffers and textures are handles. \<open>sharedDepthPass\<close> is \<open>None\<close> for \<open>null\<close>
  and \<open>Some b\<close> for a shared depth pass whose \<open>texture\<close> is truthy iff \<open>b\<close>. \<open>live_textures\<close>
  lists the depth textures created by \<open>createDepthTexture\<close> and not yet disposed;
  \<open>events\<close> lists the render calls made on passes and on the renderer.
\<close>

record composer =
  renderer :: "renderer option"
  inputBuffer :: nat
  outputBuffer :: nat
  inputBuffer_depthTexture :: "nat option"
  depthTexture :: "nat option"
  passes :: "pass_ref list"
  store :: "pass_ref \<Rightarrow> pass"
  autoRenderToScreen :: bool
  useMRT :: bool
  mrtRenderPass :: "pass_ref option"
  sharedDepthPass :: "bool option"
  stencilTest :: bool
  next_mrt :: nat
  next_texture :: nat
  live_textures :: "nat list"
  disposed_textures :: "nat list"
  events :: "cevent list"

definition modify_pass :: "pass_ref \<Rightarrow> (pass \<Rightarrow> pass) \<Rightarrow> composer \<Rightarrow> composer" where
  "modify_pass p f c = c\<lparr>store := (store c)(p := f (store c p))\<rparr>"

text \<open>
  Modelled from the spec: the base class \<open>Pass\<close> is not among the sources; a pass keeps the
  depth texture handle that \<open>setDepthTexture\<close> gives it, and \<open>getDepthTexture\<close> returns it.
\<close>

definition setDepthTexture :: "nat option \<Rightarrow> pass \<Rightarrow> pass" where
  "setDepthTexture t ps = ps\<lparr>p_depthTexture := t\<rparr>"

text \<open>\<open>for (const pass of passes) pass.setDepthTexture(t)\<close>.\<close>

fun setDepthTexture_all :: "nat option \<Rightarrow> pass_ref list \<Rightarrow> composer \<Rightarrow> composer" where
  "setDepthTexture_all t [] c = c"
| "setDepthTexture_all t (p # ps) c = setDepthTexture_all t ps (modify_pass p (setDepthTexture t) c)"

definition createDepthTexture :: "composer \<Rightarrow> nat \<times> composer" where
  "createDepthTexture c =
     (let t = next_texture c
      in (t, c\<lparr>depthTexture := Some t, inputBuffer_depthTexture := Some t,
               next_texture := t + 1, live_textures := live_textures c @ [t]\<rparr>))"

definition deleteDepthTexture :: "composer \<Rightarrow> composer" where
  "deleteDepthTexture c =
     (case depthTexture c of
        None \<Rightarrow> c
      | Some t \<Rightarrow>
          setDepthTexture_all None (passes c)
            (c\<lparr>depthTexture := None, inputBuffer_depthTexture := None,
               live_textures := removeAll t (live_textures c),
               disposed_textures := disposed_textures c @ [t]\<rparr>))"

subsection \<open>The capability probe and the multi-target substitute\<close>

text \<open>\<open>_cleanupMRTResources\<close>.\<close>

definition cleanupMRTResources :: "composer \<Rightarrow> composer" where
  "cleanupMRTResources c = c\<lparr>mrtRenderPass := None, sharedDepthPass := None\<rparr>"

text \<open>
  \<open>_checkMRTSupport\<close>: WebGL 2 is required, and a test target with two attachments must
  come back with a \<open>textures\<close> array of length 2.
\<close>

definition checkMRTSupport :: "renderer option \<Rightarrow> alloc_result \<Rightarrow> composer \<Rightarrow> composer" where
  "checkMRTSupport r probe c =
     (case r of
        None \<Rightarrow> c\<lparr>useMRT := False\<rparr>
      | Some rd \<Rightarrow>
          (let hasDrawBuffers = (if isWebGL2 rd then True else draw_buffers_extension rd);
               mrtSupported = (isWebGL2 rd \<and> hasDrawBuffers \<and> probe = AllocTextures (Some 2));
               use = (isWebGL2 rd \<and> hasDrawBuffers \<and> mrtSupported);
               c1 = c\<lparr>useMRT := use\<rparr>
           in if \<not> use \<and> (mrtRenderPass c1 \<noteq> None \<or> sharedDepthPass c1 \<noteq> None)
              then cleanupMRTResources c1 else c1))"

text \<open>
  Modelled from the spec: the base class \<open>Pass\<close> is not among the sources; a freshly
  constructed pass is enabled, does not render to screen and does not request the shared
  depth texture. The \<open>MRTRenderPass\<close> constructor sets \<open>needsSwap\<close> and leaves
  \<open>renderTargetMRT\<close> null and both support flags false.
\<close>

definition new_MRTRenderPass :: pass where
  "new_MRTRenderPass =
     \<lparr>cls = MRTRenderPassC, enabled = True, needsSwap = True, needsDepthTexture = False,
      renderToScreen = False, clearPass_enabled = False, p_depthTexture = None,
      p_size = None, p_initialized = False, render_throws = False,
      isWebGL2Supported = False, isMRTSupported = False, renderTargetMRT = None\<rparr>"

text \<open>The getter \<open>depthTexture\<close> of the multi-target pass is truthy iff this holds.\<close>

definition mrt_depthTexture_valid :: "pass \<Rightarrow> bool" where
  "mrt_depthTexture_valid ps = (case renderTargetMRT ps of None \<Rightarrow> False | Some n \<Rightarrow> 2 \<le> n)"

text \<open>
  \<open>MRTRenderPass.createRenderTargets\<close>. Configuring \<open>textures[0]\<close> and \<open>textures[1]\<close> of a new
  target throws a \<open>TypeError\<close> when they are missing; the \<open>catch\<close> resets the target to
  null and returns false.
\<close>

definition createRenderTargets :: "mrt_env \<Rightarrow> pass \<Rightarrow> bool \<times> pass" where
  "createRenderTargets env ps =
     (case renderTargetMRT ps of
        Some n \<Rightarrow> (True, ps)
      | None \<Rightarrow>
          if \<not> isWebGL2Supported ps \<or> \<not> isMRTSupported ps then (False, ps)
          else (case target_alloc env of
                  AllocThrows \<Rightarrow> (False, ps\<lparr>renderTargetMRT := None\<rparr>)
                | AllocTextures None \<Rightarrow> (False, ps\<lparr>renderTargetMRT := None\<rparr>)
                | AllocTextures (Some n) \<Rightarrow>
                    if 2 \<le> n then (True, ps\<lparr>renderTargetMRT := Some n\<rparr>)
                    else (False, ps\<lparr>renderTargetMRT := None\<rparr>)))"

text \<open>\<open>MRTRenderPass.initialize\<close>, lines 148-203.\<close>

definition mrt_initialize :: "renderer option \<Rightarrow> mrt_env \<Rightarrow> pass \<Rightarrow> bool \<times> pass" where
  "mrt_initialize r env ps =
     (case r of
        None \<Rightarrow> (False, ps)
      | Some rd \<Rightarrow>
          (let ps1 = ps\<lparr>isWebGL2Supported := isWebGL2 rd\<rparr>
           in if \<not> isWebGL2Supported ps1 then (False, ps1)
              else (case test_alloc env of
                      AllocThrows \<Rightarrow> (False, ps1\<lparr>isMRTSupported := False\<rparr>)
                    | AllocTextures None \<Rightarrow> (False, ps1\<lparr>isMRTSupported := False\<rparr>)
                    | AllocTextures (Some n) \<Rightarrow>
                        (let ps2 = ps1\<lparr>isMRTSupported := True\<rparr>;
                             r2 = createRenderTargets env ps2
                         in if \<not> mrt_depthTexture_valid (snd r2) then (False, snd r2)
                            else r2))))"

text \<open>
  \<open>setMRTRenderPass\<close>, lines 552-617: the reference of the new pass, or \<open>None\<close> for the
  \<open>null\<close> it returns on every failure. The whole body is inside \<open>try\<close>; the \<open>catch\<close> resets
  both fields and returns \<open>null\<close>, so the method itself never throws.
\<close>

definition setMRTRenderPass :: "mrt_env \<Rightarrow> composer \<Rightarrow> pass_ref option \<times> composer" where
  "setMRTRenderPass env c =
     (if \<not> useMRT c then (None, c)
      else if ctor_throws env then (None, c\<lparr>mrtRenderPass := None, sharedDepthPass := None\<rparr>)
      else
        (let p = MRTPass (next_mrt c);
             c1 = c\<lparr>store := (store c)(p := new_MRTRenderPass), next_mrt := next_mrt c + 1,
                    mrtRenderPass := Some p\<rparr>
         in if renderer c1 = None then (None, c1\<lparr>mrtRenderPass := None\<rparr>)
            else if mrt_context_throws env
            then (None, c1\<lparr>mrtRenderPass := None, sharedDepthPass := None\<rparr>)
            else
              (let r = mrt_initialize (renderer c1) env (store c1 p);
                   c2 = c1\<lparr>store := (store c1)(p := snd r)\<rparr>
               in if \<not> fst r then (None, c2\<lparr>mrtRenderPass := None\<rparr>)
                  else if \<not> mrt_depthTexture_valid (store c2 p) then (Some p, c2)
                  else (Some p, c2\<lparr>sharedDepthPass := Some True\<rparr>))))"

subsection \<open>Adding and removing passes\<close>

text \<open>\<open>passes.splice(index, 0, pass)\<close>, or \<open>passes.push(pass)\<close> when \<open>index\<close> is undefined.\<close>

definition insert_pass :: "int option \<Rightarrow> pass_ref \<Rightarrow> pass_ref list \<Rightarrow> pass_ref list" where
  "insert_pass index p ps =
     (case index of
        None \<Rightarrow> ps @ [p]
      | Some i \<Rightarrow>
          (let n = int (length ps);
               k = (if i < 0 then max (n + i) 0 else min i n)
           in take (nat k) ps @ [p] @ drop (nat k) ps))"

text \<open>Lines 696-714 of \<open>addPass\<close>.\<close>

definition provide_depthTexture :: "pass_ref \<Rightarrow> composer \<Rightarrow> composer" where
  "provide_depthTexture p c =
     (if needsDepthTexture (store c p) \<or> depthTexture c \<noteq> None then
        (case depthTexture c of
           None \<Rightarrow> (let r = createDepthTexture c in setDepthTexture_all (Some (fst r)) (passes (snd r)) (snd r))
         | Some t \<Rightarrow> modify_pass p (setDepthTexture (Some t)) c)
      else c)"

text \<open>
  Lines 656-714 of \<open>addPass\<close>: the path that adds the pass it was given. Lines 656 and 657
  come before any assignment: \<open>renderer.getDrawingBufferSize\<close> throws a \<open>TypeError\<close> when
  the composer has no renderer, and the context query throws when the environment says
  so; the composer is then as it was.

  Modelled from the spec: the classes of the passes handed to \<open>addPass\<close> are not among the
  sources; \<open>pass.setRenderer\<close>, \<open>pass.setSize\<close> and \<open>pass.initialize\<close> record the size and
  the initialization on the pass and do not throw.
\<close>

definition add_plain :: "mrt_env \<Rightarrow> pass_ref \<Rightarrow> int option \<Rightarrow> composer \<Rightarrow> unit outcome \<times> composer" where
  "add_plain env p index c =
     (case renderer c of
        None \<Rightarrow> (Thrown TypeError, c)
      | Some rd \<Rightarrow>
          if context_throws env then (Thrown TypeError, c)
          else
          (let c1 = modify_pass p (\<lambda>ps. ps\<lparr>p_size := Some (drawingBufferSize rd), p_initialized := True\<rparr>) c;
               c2 = (if autoRenderToScreen c1 \<and> passes c1 \<noteq> []
                     then modify_pass (last (passes c1)) (\<lambda>ps. ps\<lparr>renderToScreen := False\<rparr>) c1
                     else c1);
               c3 = (if autoRenderToScreen c2 \<and> renderToScreen (store c2 p)
                     then c2\<lparr>autoRenderToScreen := False\<rparr> else c2);
               c4 = c3\<lparr>passes := insert_pass index p (passes c3)\<rparr>;
               c5 = (if autoRenderToScreen c4
                     then modify_pass (last (passes c4)) (\<lambda>ps. ps\<lparr>renderToScreen := True\<rparr>) c4
                     else c4)
           in (Returned (), provide_depthTexture p c5)))"

text \<open>
  \<open>addPass\<close>, lines 634-715. The result says whether the call returned or threw, and gives
  the composer as the call leaves it in either case.
\<close>

definition addPass :: "mrt_env \<Rightarrow> pass_ref \<Rightarrow> int option \<Rightarrow> composer \<Rightarrow> unit outcome \<times> composer" where
  "addPass env p index c =
     (if useMRT c \<and> passes c = [] \<and> cls (store c p) = RenderPassC then
        (case setMRTRenderPass env c of
           (Some mrtPass, c1) \<Rightarrow>
             (case renderer c1 of
                None \<Rightarrow> (Thrown TypeError, c1)
              | Some rd \<Rightarrow>
                  (Returned (),
                   (modify_pass mrtPass (\<lambda>ps. ps\<lparr>p_size := Some (drawingBufferSize rd)\<rparr>) c1)
                     \<lparr>passes := passes c1 @ [mrtPass]\<rparr>))
         | (None, c1) \<Rightarrow> add_plain env p index c1)
      else add_plain env p index c)"

text \<open>\<open>passes.indexOf(pass)\<close> as an option.\<close>

fun indexOf :: "pass_ref list \<Rightarrow> pass_ref \<Rightarrow> nat option" where
  "indexOf [] p = None"
| "indexOf (q # qs) p = (if q = p then Some 0 else map_option Suc (indexOf qs p))"

definition removePass :: "pass_ref \<Rightarrow> composer \<Rightarrow> composer" where
  "removePass p c =
     (case indexOf (passes c) p of
        None \<Rightarrow> c
      | Some index \<Rightarrow>
          (let c1 = c\<lparr>passes := take index (passes c) @ drop (Suc index) (passes c)\<rparr>;
               c2 = (if depthTexture c1 \<noteq> None then
                       (let depthTextureRequired =
                              foldl (\<lambda>a b. a \<or> needsDepthTexture (store c1 b)) False (passes c1)
                        in if \<not> depthTextureRequired then
                             deleteDepthTexture
                               (if p_depthTexture (store c1 p) = depthTexture c1
                                then modify_pass p (setDepthTexture None) c1 else c1)
                           else c1)
                     else c1)
           in if autoRenderToScreen c2 \<and> index = length (passes c2) then
                (let c3 = modify_pass p (\<lambda>ps. ps\<lparr>renderToScreen := False\<rparr>) c2
                 in if passes c3 \<noteq> []
                    then modify_pass (last (passes c3)) (\<lambda>ps. ps\<lparr>renderToScreen := True\<rparr>) c3
                    else c3)
              else c2))"

text \<open>
  The composer right after construction with a renderer: no passes, no depth texture,
  and the probe's result recorded. \<open>heap\<close> holds the passes the user has constructed.
\<close>

definition new_composer :: "renderer option \<Rightarrow> alloc_result \<Rightarrow> (pass_ref \<Rightarrow> pass) \<Rightarrow> composer" where
  "new_composer r probe heap =
     (let c = \<lparr>renderer = r, inputBuffer = 0, outputBuffer = 1, inputBuffer_depthTexture = None,
               depthTexture = None, passes = [], store = heap, autoRenderToScreen = True,
               useMRT = False, mrtRenderPass = None, sharedDepthPass = None,
               stencilTest = False, next_mrt = 0, next_texture = 0, live_textures = [],
               disposed_textures = [], events = []\<rparr>
      in if r = None then c else checkMRTSupport r probe c)"

text \<open>
  The states a composer goes through under \<open>addPass\<close> and \<open>removePass\<close>; a call of
  \<open>addPass\<close> that throws leaves a state too.
\<close>

inductive reachable :: "composer \<Rightarrow> bool" where
  reach_new: "reachable (new_composer r probe heap)"
| reach_add: "reachable c \<Longrightarrow> reachable (snd (addPass env p index c))"
| reach_remove: "reachable c \<Longrightarrow> reachable (removePass p c)"

subsection \<open>Rendering\<close>

text \<open>
  One call \<open>pass.render(renderer, inputBuffer, outputBuffer, dt, this.stencilTest [, sharedDepthPass])\<close>:
  the call is recorded with the buffer handles it was given, then the pass throws or
  returns.
\<close>

definition pass_render :: "nat \<Rightarrow> pass_ref \<Rightarrow> nat \<Rightarrow> nat \<Rightarrow> bool \<Rightarrow> composer \<Rightarrow> unit outcome \<times> composer" where
  "pass_render i p inp out shared c =
     (let rc = \<lparr>rc_index = i, rc_pass = p, rc_input = inp, rc_output = out,
                rc_stencil = stencilTest c, rc_shared = shared\<rparr>;
          c1 = c\<lparr>events := events c @ [PassRender rc]\<rparr>
      in (if render_throws (store c p) then Thrown RenderFailure else Returned (), c1))"

text \<open>\<open>_updateSharedDepthPass\<close>.\<close>

definition updateSharedDepthPass :: "composer \<Rightarrow> bool \<times> composer" where
  "updateSharedDepthPass c =
     (case mrtRenderPass c of
        None \<Rightarrow> (False, c)
      | Some mp \<Rightarrow>
          (case sharedDepthPass c of
             None \<Rightarrow> (False, c)
           | Some b \<Rightarrow>
               if \<not> mrt_depthTexture_valid (store c mp) then (False, c)
               else (True, c\<lparr>sharedDepthPass := Some True\<rparr>)))"

text \<open>The local variables of the loop in \<open>render\<close>, with the composer.\<close>

record loop_state =
  ls_input :: nat
  ls_output :: nat
  ls_validShared :: bool
  ls_comp :: composer

datatype try_exit = Skipped | Completed

text \<open>
  The \<open>try\<close> block, lines 894-944. \<open>Skipped\<close> is the \<open>continue\<close> taken for a multi-target
  pass when multi-target rendering is off.
\<close>

definition try_body :: "nat \<Rightarrow> pass_ref \<Rightarrow> loop_state \<Rightarrow> try_exit outcome \<times> loop_state" where
  "try_body i p s =
     (let c = ls_comp s; ps = store c p
      in if cls ps = MRTRenderPassC \<and> \<not> useMRT c then (Returned Skipped, s)
         else if cls ps = MRTRenderPassC then
           (case pass_render i p (ls_input s) (ls_output s) False c of
              (Thrown e, c1) \<Rightarrow> (Thrown e, s\<lparr>ls_comp := c1\<rparr>)
            | (Returned u, c1) \<Rightarrow>
                (let r = updateSharedDepthPass c1
                 in (Returned Completed,
                     s\<lparr>ls_validShared := (if fst r then True else ls_validShared s),
                       ls_comp := snd r\<rparr>)))
         else
           (case pass_render i p (ls_input s) (ls_output s)
                   (cls ps = EffectPassC \<and> ls_validShared s) c of
              (Thrown e, c1) \<Rightarrow> (Thrown e, s\<lparr>ls_comp := c1\<rparr>)
            | (Returned u, c1) \<Rightarrow> (Returned Completed, s\<lparr>ls_comp := c1\<rparr>)))"

definition try_catch :: "'a outcome \<times> 's \<Rightarrow> (exn \<Rightarrow> 's \<Rightarrow> 'a outcome \<times> 's) \<Rightarrow> 'a outcome \<times> 's" where
  "try_catch body handler =
     (case body of (Thrown e, s) \<Rightarrow> handler e s | (Returned x, s) \<Rightarrow> (Returned x, s))"

text \<open>The \<open>catch\<close> block, lines 945-947: log the error and go on.\<close>

definition catch_block :: "exn \<Rightarrow> loop_state \<Rightarrow> try_exit outcome \<times> loop_state" where
  "catch_block e s =
     (Returned Completed, s\<lparr>ls_comp := (ls_comp s)\<lparr>events := events (ls_comp s) @ [LogError]\<rparr>\<rparr>)"

text \<open>Lines 949-976: the buffer swap and the stencil bookkeeping of mask passes.\<close>

definition after_try :: "pass_ref \<Rightarrow> loop_state \<Rightarrow> loop_state" where
  "after_try p s =
     (let ps = store (ls_comp s) p;
          maskActive = (enabled ps \<and> \<not> clearPass_enabled ps);
          s1 = (if needsSwap ps then
                  (let c = ls_comp s;
                       c1 = (if cls ps = MaskPassC \<and> maskActive
                             then c\<lparr>events := events c @ [ClearDepth]\<rparr> else c)
                   in s\<lparr>ls_input := ls_output s, ls_output := ls_input s, ls_comp := c1\<rparr>)
                else s)
      in if cls ps = MaskPassC then
           (if maskActive then s1\<lparr>ls_comp := (ls_comp s1)\<lparr>stencilTest := True\<rparr>\<rparr>
            else if clearPass_enabled ps then s1\<lparr>ls_comp := (ls_comp s1)\<lparr>stencilTest := False\<rparr>\<rparr>
            else s1)
         else s1)"

text \<open>One iteration of the loop, lines 869-978.\<close>

definition render_iteration ::
  "bool \<Rightarrow> nat option \<Rightarrow> nat \<Rightarrow> pass_ref \<Rightarrow> loop_state \<Rightarrow> unit outcome \<times> loop_state" where
  "render_iteration skipDepthPass depthPassIndex i p s =
     (if enabled (store (ls_comp s) p) then
        (if skipDepthPass \<and> Some i = depthPassIndex then (Returned (), s)
         else (case try_catch (try_body i p s) catch_block of
                 (Thrown e, s1) \<Rightarrow> (Thrown e, s1)
               | (Returned Skipped, s1) \<Rightarrow> (Returned (), s1)
               | (Returned Completed, s1) \<Rightarrow> (Returned (), after_try p s1)))
      else (Returned (), s))"

fun render_loop ::
  "bool \<Rightarrow> nat option \<Rightarrow> nat \<Rightarrow> pass_ref list \<Rightarrow> loop_state \<Rightarrow> unit outcome \<times> loop_state" where
  "render_loop sk dpi i [] s = (Returned (), s)"
| "render_loop sk dpi i (p # ps) s =
     (case render_iteration sk dpi i p s of
        (Thrown e, s1) \<Rightarrow> (Thrown e, s1)
      | (Returned u, s1) \<Rightarrow> render_loop sk dpi (Suc i) ps s1)"

text \<open>
  Lines 835-840: the index of the first pass that is a \<open>DepthPass\<close> and not a
  \<open>SharedDepthPass\<close>.
\<close>

fun find_depthPass :: "(pass_ref \<Rightarrow> pass) \<Rightarrow> nat \<Rightarrow> pass_ref list \<Rightarrow> nat option" where
  "find_depthPass st i [] = None"
| "find_depthPass st i (p # ps) =
     (if cls (st p) = DepthPassC then Some i else find_depthPass st (Suc i) ps)"

definition skipDepthPass_of :: "composer \<Rightarrow> bool" where
  "skipDepthPass_of c =
     (useMRT c \<and> find_depthPass (store c) 0 (passes c) \<noteq> None \<and> sharedDepthPass c = Some True)"

text \<open>
  \<open>render\<close>, lines 808-981. The constructor sets \<open>_useMRT\<close> to a boolean, so the test
  \<open>this._useMRT === undefined\<close> never holds.
\<close>

definition render :: "composer \<Rightarrow> unit outcome \<times> composer" where
  "render c =
     (case renderer c of
        None \<Rightarrow> (Returned (), c\<lparr>events := events c @ [LogError]\<rparr>)
      | Some rd \<Rightarrow>
          (let r = render_loop (skipDepthPass_of c) (find_depthPass (store c) 0 (passes c)) 0 (passes c)
                     \<lparr>ls_input = inputBuffer c, ls_output = outputBuffer c,
                      ls_validShared = (sharedDepthPass c = Some True), ls_comp = c\<rparr>
           in (fst r, ls_comp (snd r))))"

fun calls_of :: "cevent list \<Rightarrow> render_call list" where
  "calls_of [] = []"
| "calls_of (PassRender rc # es) = rc # calls_of es"
| "calls_of (e # es) = calls_of es"

text \<open>The render calls made on passes during one \<open>render\<close>.\<close>

definition render_trace :: "composer \<Rightarrow> render_call list" where
  "render_trace c = calls_of (drop (length (events c)) (events (snd (render c))))"

text \<open>
  The passes of the list that \<open>render\<close> calls: enabled, not the depth pass that the shared
  depth pass replaces, and not a multi-target pass while multi-target rendering is off.
\<close>

definition renders_pass :: "composer \<Rightarrow> nat \<times> pass_ref \<Rightarrow> bool" where
  "renders_pass c ip =
     (enabled (store c (snd ip)) \<and>
      \<not> (skipDepthPass_of c \<and> Some (fst ip) = find_depthPass (store c) 0 (passes c)) \<and>
      \<not> (cls (store c (snd ip)) = MRTRenderPassC \<and> \<not> useMRT c))"

definition rendered_passes :: "composer \<Rightarrow> (nat \<times> pass_ref) list" where
  "rendered_passes c = filter (renders_pass c) (enumerate 0 (passes c))"

section \<open>Auxiliary notions for the proofs\<close>

text \<open>
  \<open>swap_chain st ips a b rcs\<close>: the render calls \<open>rcs\<close> are exactly the calls on the passes
  \<open>ips\<close> (index and reference), in order, the first with the buffer pair \<open>(a, b)\<close> and each
  next one with the pair exchanged iff the pass before it has \<open>needsSwap\<close>.
\<close>

fun swap_chain ::
  "(pass_ref \<Rightarrow> pass) \<Rightarrow> (nat \<times> pass_ref) list \<Rightarrow> nat \<Rightarrow> nat \<Rightarrow> render_call list \<Rightarrow> bool" where
  "swap_chain st [] a b rcs = (rcs = [])"
| "swap_chain st (ip # ips) a b rcs =
     (case rcs of
        [] \<Rightarrow> False
      | rc # rcs' \<Rightarrow>
          rc_index rc = fst ip \<and> rc_pass rc = snd ip \<and> rc_input rc = a \<and> rc_output rc = b \<and>
          (if needsSwap (st (snd ip)) then swap_chain st ips b a rcs'
           else swap_chain st ips a b rcs'))"

definition loop_renders ::
  "(pass_ref \<Rightarrow> pass) \<Rightarrow> bool \<Rightarrow> bool \<Rightarrow> nat option \<Rightarrow> nat \<times> pass_ref \<Rightarrow> bool" where
  "loop_renders st use sk dpi ip =
     (enabled (st (snd ip)) \<and> \<not> (sk \<and> Some (fst ip) = dpi) \<and>
      \<not> (cls (st (snd ip)) = MRTRenderPassC \<and> \<not> use))"

text \<open>
  The invariant that links the composer's depth texture to its pass list: a texture
  exists iff some pass of the list requests it; it is the only live one; and every pass
  of the list has been given it.
\<close>

definition depth_inv :: "composer \<Rightarrow> bool" where
  "depth_inv c =
     ((depthTexture c = None \<longrightarrow> (\<forall>p \<in> set (passes c). \<not> needsDepthTexture (store c p))) \<and>
      (depthTexture c \<noteq> None \<longrightarrow> (\<exists>p \<in> set (passes c). needsDepthTexture (store c p))) \<and>
      live_textures c = (case depthTexture c of None \<Rightarrow> [] | Some t \<Rightarrow> [t]) \<and>
      (depthTexture c \<noteq> None \<longrightarrow>
         (\<forall>p \<in> set (passes c). p_depthTexture (store c p) = depthTexture c)))"

text \<open>\<open>removePass\<close> up to and including the release of the depth texture (lines 723-750).\<close>

definition removePass_core :: "pass_ref \<Rightarrow> nat \<Rightarrow> composer \<Rightarrow> composer" where
  "removePass_core p index c =
     (let c1 = c\<lparr>passes := take index (passes c) @ drop (Suc index) (passes c)\<rparr>
      in if depthTexture c1 \<noteq> None then
           (let depthTextureRequired =
                  foldl (\<lambda>a b. a \<or> needsDepthTexture (store c1 b)) False (passes c1)
            in if \<not> depthTextureRequired then
                 deleteDepthTexture
                   (if p_depthTexture (store c1 p) = depthTexture c1
                    then modify_pass p (setDepthTexture None) c1 else c1)
               else c1)
         else c1)"

text \<open>
  What \<open>SharedOutlineEffect.update\<close> computes before its cleanup test: the counter after
  the increment, the accumulated set of active objects, and the manager after the
  effect registered its selection.
\<close>

definition counter_after :: "statics \<Rightarrow> int" where
  "counter_after st = (case updateCounter st of None \<Rightarrow> 0 | Some k \<Rightarrow> k) + 1"

definition active_after :: "effect \<Rightarrow> statics \<Rightarrow> obj list" where
  "active_after e st =
     fold set_add (eff_selection e) (case activeObjects st of None \<Rightarrow> [] | Some a \<Rightarrow> a)"

definition registered :: "effect \<Rightarrow> manager \<Rightarrow> manager" where
  "registered e m =
     (if eff_selection e \<noteq> []
      then register_selection e (m\<lparr>currentLayer := Some (selectionLayer e)\<rparr>)
      else m\<lparr>currentLayer := Some (selectionLayer e)\<rparr>)"

subsection \<open>Concrete states used to exercise the theorems\<close>

definition example_world :: world where
  "example_world = \<lparr>background = Some 7, camera_mask = 1, lastDepthPassTime = None, trace = []\<rparr>"

definition example_manager :: manager where
  "example_manager =
     \<lparr>selectionsByLayer = [(10, [1, 2]), (11, [2, 3])], selection_layer = 10,
      currentLayer = Some 11, needsUpdate = True, resolutionScale = 1 / 2\<rparr>"

definition example_call :: "int \<Rightarrow> call" where
  "example_call t = \<lparr>now = t, depth_throws = False, mask_throws = False\<rparr>"

definition plain_pass :: pass where
  "plain_pass =
     \<lparr>cls = OtherPassC, enabled = True, needsSwap = True, needsDepthTexture = False,
      renderToScreen = False, clearPass_enabled = False, p_depthTexture = None,
      p_size = None, p_initialized = False, render_throws = False,
      isWebGL2Supported = False, isMRTSupported = False, renderTargetMRT = None\<rparr>"

definition example_renderer :: renderer where
  "example_renderer =
     \<lparr>drawingBufferSize = (800, 600), isWebGL2 = True, draw_buffers_extension = False\<rparr>"

text \<open>Three passes; the second one throws when rendered, the third does not swap.\<close>

definition example_composer :: composer where
  "example_composer =
     \<lparr>renderer = Some example_renderer, inputBuffer = 0, outputBuffer = 1,
      inputBuffer_depthTexture = None, depthTexture = None,
      passes = [UserPass 0, UserPass 1, UserPass 2],
      store = (\<lambda>r. plain_pass\<lparr>render_throws := (r = UserPass 1), needsSwap := (r \<noteq> UserPass 2)\<rparr>),
      autoRenderToScreen = True, useMRT = False, mrtRenderPass = None, sharedDepthPass = None,
      stencilTest = False, next_mrt = 0, next_texture = 0, live_textures = [],
      disposed_textures = [], events = []\<rparr>"

definition example_effect_call :: "int \<Rightarrow> effect_call" where
  "example_effect_call t =
     \<lparr>manager_call = example_call t, outline_throws = False, blur_throws = False\<rparr>"

definition example_effect :: effect where
  "example_effect = \<lparr>eff_selection = [2], selectionLayer = 11, blur_enabled = True\<rparr>"

definition example_statics :: statics where
  "example_statics =
     \<lparr>activeObjects = Some [3], updateCounter = Some 1, static_currentLayer = Some 10\<rparr>"

text \<open>
  A composer on a context with working multi-target support, a scene-render pass
  \<open>UserPass 0\<close> and an effect pass \<open>UserPass 1\<close> that requests the depth texture; then the
  composer after adding the first, and after adding both.
\<close>

definition example_env :: mrt_env where
  "example_env =
     \<lparr>ctor_throws = False, mrt_context_throws = False, context_throws = False,
      test_alloc = AllocTextures (Some 2), target_alloc = AllocTextures (Some 2)\<rparr>"

definition failing_env :: mrt_env where
  "failing_env =
     \<lparr>ctor_throws = False, mrt_context_throws = False, context_throws = False,
      test_alloc = AllocThrows, target_alloc = AllocTextures (Some 2)\<rparr>"

definition example_heap :: "pass_ref \<Rightarrow> pass" where
  "example_heap =
     (\<lambda>r. plain_pass\<lparr>cls := (if r = UserPass 0 then RenderPassC else EffectPassC),
                     needsDepthTexture := (r = UserPass 1)\<rparr>)"

definition example_composer0 :: composer where
  "example_composer0 = new_composer (Some example_renderer) (AllocTextures (Some 2)) example_heap"

definition example_composer1 :: composer where
  "example_composer1 = snd (addPass example_env (UserPass 0) None example_composer0)"

definition example_composer2 :: composer where
  "example_composer2 = snd (addPass example_env (UserPass 1) None example_composer1)"

section \<open>Properties of the manager\<close>

subsection \<open>The depth render and the dedup token\<close>

lemma depth_stage_not_due:
  "\<not> depth_due (lastDepthPassTime w) (now c) \<Longrightarrow> depth_stage c m w = (Returned (), w)"
  by (simp add: depth_stage_def)

lemma filter_setVisible_depth [simp]:
  "filter (\<lambda>e. e = DepthRender) (setVisible_all v m) = []"
  by (simp add: setVisible_all_def filter_empty_conv)

lemma filter_setVisible_mask [simp]:
  "filter is_mask_render (setVisible_all v m) = []"
  by (simp add: setVisible_all_def filter_empty_conv is_mask_render_def)

lemma mask_stage_effect:
  "lastDepthPassTime (snd (mask_stage c m w)) = lastDepthPassTime w \<and>
   depth_renders (snd (mask_stage c m w)) = depth_renders w \<and>
   mask_renders (snd (mask_stage c m w)) = mask_renders w + 1"
  by (simp add: mask_stage_def render_mask_at_def Let_def depth_renders_def mask_renders_def
      is_mask_render_def)

lemma update_skipped:
  "\<not> proceeds m \<Longrightarrow> update c w m = (Returned False, w, m)"
  by (simp add: update_def proceeds_def)

lemma update_in_window:
  assumes "lastDepthPassTime w = Some t0" "t0 \<noteq> 0" "now c - t0 \<le> 16"
  shows "lastDepthPassTime (fst (snd (update c w m))) = Some t0 \<and>
         depth_renders (fst (snd (update c w m))) = depth_renders w \<and>
         mask_renders (fst (snd (update c w m))) = mask_renders w + (if proceeds m then 1 else 0)"
proof -
  have nd: "\<not> depth_due (lastDepthPassTime w) (now c)"
    using assms by (simp add: depth_due_def)
  show ?thesis
  proof (cases "proceeds m")
    case False
    then show ?thesis using assms by (simp add: update_skipped)
  next
    case True
    obtain r w2 where ms: "mask_stage c m w = (r, w2)" by (cases "mask_stage c m w")
    have eff: "lastDepthPassTime w2 = lastDepthPassTime w \<and> depth_renders w2 = depth_renders w
       \<and> mask_renders w2 = mask_renders w + 1"
      using mask_stage_effect [of c m w] ms by simp
    have "fst (snd (update c w m)) = w2"
      using True ms by (cases r) (auto simp: update_def proceeds_def depth_stage_not_due [OF nd])
    then show ?thesis using eff assms True by simp
  qed
qed

lemma run_updates_in_window:
  assumes "lastDepthPassTime w = Some t0" "t0 \<noteq> 0" "\<forall>cm \<in> set calls. now (fst cm) - t0 \<le> 16"
  shows "lastDepthPassTime (run_updates calls w) = Some t0 \<and>
         depth_renders (run_updates calls w) = depth_renders w \<and>
         mask_renders (run_updates calls w) =
           mask_renders w + length (filter (\<lambda>cm. proceeds (snd cm)) calls)"
  using assms
proof (induction calls arbitrary: w)
  case Nil
  then show ?case by simp
next
  case (Cons cm calls)
  let ?w' = "fst (snd (update (fst cm) w (snd cm)))"
  have step: "lastDepthPassTime ?w' = Some t0 \<and> depth_renders ?w' = depth_renders w \<and>
      mask_renders ?w' = mask_renders w + (if proceeds (snd cm) then 1 else 0)"
    using update_in_window [of w t0 "fst cm" "snd cm"] Cons.prems by simp
  have ih: "lastDepthPassTime (run_updates calls ?w') = Some t0 \<and>
         depth_renders (run_updates calls ?w') = depth_renders ?w' \<and>
         mask_renders (run_updates calls ?w') =
           mask_renders ?w' + length (filter (\<lambda>cm. proceeds (snd cm)) calls)"
    using Cons.IH [of ?w'] step Cons.prems by simp
  show ?case using step ih by simp
qed

lemma update_first_render:
  assumes "proceeds m" "depth_due (lastDepthPassTime w) (now c)" "\<not> depth_throws c"
  shows "lastDepthPassTime (fst (snd (update c w m))) = Some (now c) \<and>
         depth_renders (fst (snd (update c w m))) = depth_renders w + 1 \<and>
         mask_renders (fst (snd (update c w m))) = mask_renders w + 1"
proof -
  obtain w1 where ds: "depth_stage c m w = (Returned (), w1)"
     and w1: "lastDepthPassTime w1 = Some (now c)" "depth_renders w1 = depth_renders w + 1"
       "mask_renders w1 = mask_renders w"
    using assms
    by (simp add: depth_stage_def Let_def depth_renders_def mask_renders_def is_mask_render_def)
  obtain r w2 where ms: "mask_stage c m w1 = (r, w2)" by (cases "mask_stage c m w1")
  have eff: "lastDepthPassTime w2 = lastDepthPassTime w1 \<and> depth_renders w2 = depth_renders w1
       \<and> mask_renders w2 = mask_renders w1 + 1"
    using mask_stage_effect [of c m w1] ms by simp
  have "fst (snd (update c w m)) = w2"
    using assms(1) ms ds by (cases r) (auto simp: update_def proceeds_def)
  then show ?thesis using eff w1 by simp
qed

lemma update_not_due:
  assumes "proceeds m" "\<not> depth_due (lastDepthPassTime w) (now c)"
  shows "depth_renders (fst (snd (update c w m))) = depth_renders w \<and>
         mask_renders (fst (snd (update c w m))) = mask_renders w + 1"
proof -
  obtain r w2 where ms: "mask_stage c m w = (r, w2)" by (cases "mask_stage c m w")
  have "fst (snd (update c w m)) = w2"
    using assms ms by (cases r) (auto simp: update_def proceeds_def depth_stage_not_due)
  then show ?thesis using mask_stage_effect [of c m w] ms by simp
qed

lemma run_updates_window_bound:
  assumes "\<forall>cm \<in> set calls. now (fst cm) \<noteq> 0 \<and> \<not> depth_throws (fst cm)"
    and "\<forall>cm \<in> set calls. \<forall>cm' \<in> set calls. now (fst cm') - now (fst cm) \<le> 16"
  shows "depth_renders (run_updates calls w) \<le> depth_renders w + 1 \<and>
         mask_renders (run_updates calls w) =
           mask_renders w + length (filter (\<lambda>cm. proceeds (snd cm)) calls) \<and>
         (calls \<noteq> [] \<and> proceeds (snd (hd calls)) \<and>
          depth_due (lastDepthPassTime w) (now (fst (hd calls))) \<longrightarrow>
            depth_renders (run_updates calls w) = depth_renders w + 1)"
  using assms
proof (induction calls arbitrary: w)
  case Nil
  then show ?case by simp
next
  case (Cons cm calls)
  let ?w' = "fst (snd (update (fst cm) w (snd cm)))"
  have nz: "\<forall>cm \<in> set calls. now (fst cm) \<noteq> 0 \<and> \<not> depth_throws (fst cm)"
    and win: "\<forall>cm \<in> set calls. \<forall>cm' \<in> set calls. now (fst cm') - now (fst cm) \<le> 16"
    and here: "now (fst cm) \<noteq> 0" "\<not> depth_throws (fst cm)"
    and after: "\<forall>cm' \<in> set calls. now (fst cm') - now (fst cm) \<le> 16"
    using Cons.prems by simp_all
  show ?case
  proof (cases "proceeds (snd cm) \<and> depth_due (lastDepthPassTime w) (now (fst cm))")
    case True
    have first: "lastDepthPassTime ?w' = Some (now (fst cm)) \<and>
        depth_renders ?w' = depth_renders w + 1 \<and> mask_renders ?w' = mask_renders w + 1"
      using update_first_render [of "snd cm" w "fst cm"] True here by simp
    have rest: "depth_renders (run_updates calls ?w') = depth_renders ?w' \<and>
        mask_renders (run_updates calls ?w') =
          mask_renders ?w' + length (filter (\<lambda>cm. proceeds (snd cm)) calls)"
      using run_updates_in_window [of ?w' "now (fst cm)" calls] first here after by simp
    show ?thesis using first rest True by simp
  next
    case False
    have step: "depth_renders ?w' = depth_renders w \<and>
        mask_renders ?w' = mask_renders w + (if proceeds (snd cm) then 1 else 0)"
    proof (cases "proceeds (snd cm)")
      case True
      then show ?thesis using update_not_due [of "snd cm" w "fst cm"] False by simp
    next
      case F: False
      then show ?thesis by (simp add: update_skipped)
    qed
    have ih: "depth_renders (run_updates calls ?w') \<le> depth_renders ?w' + 1 \<and>
        mask_renders (run_updates calls ?w') =
          mask_renders ?w' + length (filter (\<lambda>cm. proceeds (snd cm)) calls)"
      using Cons.IH [OF nz win, of ?w'] by simp
    show ?thesis using step ih False by simp
  qed
qed

lemma update_due:
  assumes "proceeds m" "depth_due (lastDepthPassTime w) (now c)"
  shows "depth_renders (fst (snd (update c w m))) = depth_renders w + 1"
proof (cases "depth_throws c")
  case False
  then show ?thesis using update_first_render assms by simp
next
  case True
  then show ?thesis using assms
    by (simp add: update_def proceeds_def depth_stage_def Let_def depth_renders_def)
qed

lemma depth_due_iff:
  "depth_due tok nw \<longleftrightarrow> token_unset tok \<or> (\<exists>t. tok = Some t \<and> nw - t > 16)"
  by (auto simp: depth_due_def token_unset_def split: option.splits)

text \<open>
  Claim C1, as stated, fails. The token is stamped only after the depth render has
  returned (line 225, after line 215), and nothing in \<open>update\<close> catches an exception. A
  depth render that throws therefore leaves the token as it was, and the next \<open>update\<close>
  call, 5 ms later in the same frame-length window, runs the depth render again: two depth
  renders within 16 ms. The same happens when the token is stamped with the time 0, which
  the guard reads as an unset token.
\<close>

theorem depth_render_repeated_in_window:
  "(1005::int) - 1000 \<le> 16 \<and>
   fst (update \<lparr>now = 1000, depth_throws = True, mask_throws = False\<rparr>
      \<lparr>background = Some 7, camera_mask = 1, lastDepthPassTime = None, trace = []\<rparr>
      \<lparr>selectionsByLayer = [(10, [1])], selection_layer = 10, currentLayer = None,
       needsUpdate = True, resolutionScale = 1\<rparr>) = Thrown RenderFailure \<and>
   lastDepthPassTime (fst (snd (update \<lparr>now = 1000, depth_throws = True, mask_throws = False\<rparr>
      \<lparr>background = Some 7, camera_mask = 1, lastDepthPassTime = None, trace = []\<rparr>
      \<lparr>selectionsByLayer = [(10, [1])], selection_layer = 10, currentLayer = None,
       needsUpdate = True, resolutionScale = 1\<rparr>))) = None \<and>
   depth_renders (run_updates
      [(\<lparr>now = 1000, depth_throws = True, mask_throws = False\<rparr>,
        \<lparr>selectionsByLayer = [(10, [1])], selection_layer = 10, currentLayer = None,
         needsUpdate = True, resolutionScale = 1\<rparr>),
       (\<lparr>now = 1005, depth_throws = False, mask_throws = False\<rparr>,
        \<lparr>selectionsByLayer = [(10, [1])], selection_layer = 10, currentLayer = None,
         needsUpdate = True, resolutionScale = 1\<rparr>)]
      \<lparr>background = Some 7, camera_mask = 1, lastDepthPassTime = None, trace = []\<rparr>) = 2 \<and>
   (5::int) - 0 \<le> 16 \<and>
   lastDepthPassTime (fst (snd (update \<lparr>now = 0, depth_throws = False, mask_throws = False\<rparr>
      \<lparr>background = Some 7, camera_mask = 1, lastDepthPassTime = None, trace = []\<rparr>
      \<lparr>selectionsByLayer = [(10, [1])], selection_layer = 10, currentLayer = None,
       needsUpdate = True, resolutionScale = 1\<rparr>))) = Some 0 \<and>
   depth_renders (run_updates
      [(\<lparr>now = 0, depth_throws = False, mask_throws = False\<rparr>,
        \<lparr>selectionsByLayer = [(10, [1])], selection_layer = 10, currentLayer = None,
         needsUpdate = True, resolutionScale = 1\<rparr>),
       (\<lparr>now = 5, depth_throws = False, mask_throws = False\<rparr>,
        \<lparr>selectionsByLayer = [(10, [1])], selection_layer = 10, currentLayer = None,
         needsUpdate = True, resolutionScale = 1\<rparr>)]
      \<lparr>background = Some 7, camera_mask = 1, lastDepthPassTime = None, trace = []\<rparr>) = 2"
  by code_simp

text \<open>
  Claim C1, amended. Take any number of \<open>update\<close> calls, by any consumers on any manager
  instances, whose \<open>Date.now()\<close> values lie within 16 ms of each other (one frame-length
  window), none of whose depth renders throws and none of whose \<open>Date.now()\<close> values is 0.
  Then the depth render runs at most once in the whole sequence, whatever the token was
  before; it runs exactly once when the first call finds the token unset or stale, so no
  later call in the window runs it again; and the mask render still runs on every call
  that does not take the early no-op return. For a single call: when the token is set,
  not 0, and \<open>Date.now()\<close> is within 16 ms of it, the call runs no depth render and leaves
  the token as it is, whether or not any render throws.
\<close>

theorem update_depth_once_per_window:
  assumes "\<forall>cm \<in> set calls. now (fst cm) \<noteq> 0 \<and> \<not> depth_throws (fst cm)"
    and "\<forall>cm \<in> set calls. \<forall>cm' \<in> set calls. now (fst cm') - now (fst cm) \<le> 16"
  shows "depth_renders (run_updates calls w) \<le> depth_renders w + 1 \<and>
         (calls \<noteq> [] \<and> proceeds (snd (hd calls)) \<and>
          depth_due (lastDepthPassTime w) (now (fst (hd calls))) \<longrightarrow>
            depth_renders (run_updates calls w) = depth_renders w + 1) \<and>
         mask_renders (run_updates calls w) =
           mask_renders w + length (filter (\<lambda>cm. proceeds (snd cm)) calls) \<and>
         (lastDepthPassTime w0 = Some t0 \<and> t0 \<noteq> 0 \<and> now c - t0 \<le> 16 \<longrightarrow>
            depth_renders (fst (snd (update c w0 m))) = depth_renders w0 \<and>
            lastDepthPassTime (fst (snd (update c w0 m))) = Some t0 \<and>
            mask_renders (fst (snd (update c w0 m))) =
              mask_renders w0 + (if proceeds m then 1 else 0))"
  using run_updates_window_bound [OF assms, of w] update_in_window [of w0 t0 c m] by simp

theorem update_depth_once_per_window_witness:
  "now (example_call 1000) \<noteq> 0 \<and> \<not> depth_throws (example_call 1000) \<and>
   now (example_call 1005) \<noteq> 0 \<and> \<not> depth_throws (example_call 1005) \<and>
   now (example_call 1016) \<noteq> 0 \<and> \<not> depth_throws (example_call 1016) \<and>
   now (example_call 1016) - now (example_call 1000) \<le> 16 \<and>
   proceeds example_manager \<and>
   depth_due (lastDepthPassTime example_world) (now (example_call 1000)) \<and>
   depth_renders (run_updates
      [(example_call 1000, example_manager), (example_call 1005, example_manager),
       (example_call 1016, example_manager)] example_world) = 1 \<and>
   mask_renders (run_updates
      [(example_call 1000, example_manager), (example_call 1005, example_manager),
       (example_call 1016, example_manager)] example_world) = 3"
proof -
  let ?calls = "[(example_call 1000, example_manager), (example_call 1005, example_manager),
       (example_call 1016, example_manager)]"
  have h1: "\<forall>cm \<in> set ?calls. now (fst cm) \<noteq> 0 \<and> \<not> depth_throws (fst cm)"
    by (simp add: example_call_def)
  have h2: "\<forall>cm \<in> set ?calls. \<forall>cm' \<in> set ?calls. now (fst cm') - now (fst cm) \<le> 16"
    by (simp add: example_call_def)
  have h3: "proceeds example_manager"
    by (simp add: proceeds_def example_manager_def)
  have h4: "depth_due (lastDepthPassTime example_world) (now (example_call 1000))"
    by (simp add: depth_due_def example_world_def)
  have z: "depth_renders example_world = 0" "mask_renders example_world = 0"
    by (simp_all add: depth_renders_def mask_renders_def example_world_def)
  have e: "now (example_call 1000) \<noteq> 0" "\<not> depth_throws (example_call 1000)"
     "now (example_call 1005) \<noteq> 0" "\<not> depth_throws (example_call 1005)"
     "now (example_call 1016) \<noteq> 0" "\<not> depth_throws (example_call 1016)"
     "now (example_call 1016) - now (example_call 1000) \<le> 16"
    by (simp_all add: example_call_def)
  show ?thesis
    using update_depth_once_per_window [OF h1 h2, of example_world] h3 h4 z e by simp
qed

text \<open>
  Claim C10, as stated, fails: a call of \<open>update\<close> that takes the early return (no
  selection has a member and \<open>needsUpdate\<close> is off) runs no depth render although the
  static token is unset.
\<close>

theorem depth_render_skipped_when_idle:
  "token_unset (lastDepthPassTime
      \<lparr>background = Some 7, camera_mask = 1, lastDepthPassTime = None, trace = []\<rparr>) \<and>
   fst (update \<lparr>now = 1000, depth_throws = False, mask_throws = False\<rparr>
      \<lparr>background = Some 7, camera_mask = 1, lastDepthPassTime = None, trace = []\<rparr>
      \<lparr>selectionsByLayer = [(10, [])], selection_layer = 10, currentLayer = None,
       needsUpdate = False, resolutionScale = 1\<rparr>) = Returned False \<and>
   depth_renders (fst (snd (update \<lparr>now = 1000, depth_throws = False, mask_throws = False\<rparr>
      \<lparr>background = Some 7, camera_mask = 1, lastDepthPassTime = None, trace = []\<rparr>
      \<lparr>selectionsByLayer = [(10, [])], selection_layer = 10, currentLayer = None,
       needsUpdate = False, resolutionScale = 1\<rparr>))) =
     depth_renders \<lparr>background = Some 7, camera_mask = 1, lastDepthPassTime = None, trace = []\<rparr> \<and>
   trace (fst (snd (update \<lparr>now = 1000, depth_throws = False, mask_throws = False\<rparr>
      \<lparr>background = Some 7, camera_mask = 1, lastDepthPassTime = None, trace = []\<rparr>
      \<lparr>selectionsByLayer = [(10, [])], selection_layer = 10, currentLayer = None,
       needsUpdate = False, resolutionScale = 1\<rparr>))) = []"
  by (simp add: token_unset_def update_def hasObjects_def depth_renders_def)

text \<open>
  Claim C10, amended. The token is one static property compared with the literal 16.
  Within one \<open>update\<close> call that does not take the early no-op return, the depth render
  runs if and only if the token is unset (undefined, or 0) or more than 16 ms older than
  \<open>Date.now()\<close>. Consequently, after a call that stamped the token at \<open>now c\<close>, a call on
  any other manager instance \<open>m2\<close> within 16 ms runs no depth render of its own, and a
  call more than 16 ms later runs the depth render a second time.
\<close>

theorem depth_render_iff_token_stale:
  assumes "proceeds m"
  shows "(depth_renders (fst (snd (update c w m))) = depth_renders w + 1 \<longleftrightarrow>
            token_unset (lastDepthPassTime w) \<or> (\<exists>t. lastDepthPassTime w = Some t \<and> now c - t > 16)) \<and>
         (depth_renders (fst (snd (update c w m))) = depth_renders w \<longleftrightarrow>
            \<not> (token_unset (lastDepthPassTime w) \<or> (\<exists>t. lastDepthPassTime w = Some t \<and> now c - t > 16))) \<and>
         (proceeds m2 \<and> \<not> depth_throws c \<and> now c \<noteq> 0 \<and>
          (token_unset (lastDepthPassTime w) \<or> (\<exists>t. lastDepthPassTime w = Some t \<and> now c - t > 16)) \<longrightarrow>
            (now c2 - now c \<le> 16 \<longrightarrow>
               depth_renders (fst (snd (update c2 (fst (snd (update c w m))) m2))) = depth_renders w + 1) \<and>
            (now c2 - now c > 16 \<longrightarrow>
               depth_renders (fst (snd (update c2 (fst (snd (update c w m))) m2))) = depth_renders w + 2))"
proof -
  let ?w1 = "fst (snd (update c w m))"
  let ?stale = "token_unset (lastDepthPassTime w) \<or> (\<exists>t. lastDepthPassTime w = Some t \<and> now c - t > 16)"
  have due: "depth_due (lastDepthPassTime w) (now c) \<longleftrightarrow> ?stale"
    by (rule depth_due_iff)
  have a: "?stale \<Longrightarrow> depth_renders ?w1 = depth_renders w + 1"
    using update_due [OF assms] due by simp
  have b: "\<not> ?stale \<Longrightarrow> depth_renders ?w1 = depth_renders w"
    using update_not_due [OF assms, of w c] due by simp
  have p1: "depth_renders ?w1 = depth_renders w + 1 \<longleftrightarrow> ?stale"
    using a b by (cases ?stale) simp_all
  have p2: "depth_renders ?w1 = depth_renders w \<longleftrightarrow> \<not> ?stale"
    using a b by (cases ?stale) simp_all
  have p3: "depth_renders (fst (snd (update c2 ?w1 m2))) = depth_renders w + 1"
    if h: "proceeds m2" "\<not> depth_throws c" "now c \<noteq> 0" ?stale "now c2 - now c \<le> 16"
  proof -
    have f: "lastDepthPassTime ?w1 = Some (now c)" "depth_renders ?w1 = depth_renders w + 1"
      using update_first_render [of m w c] assms h due by simp_all
    show ?thesis using update_in_window [of ?w1 "now c" c2 m2] f h by simp
  qed
  have p4: "depth_renders (fst (snd (update c2 ?w1 m2))) = depth_renders w + 2"
    if h: "proceeds m2" "\<not> depth_throws c" "now c \<noteq> 0" ?stale "now c2 - now c > 16"
  proof -
    have f: "lastDepthPassTime ?w1 = Some (now c)" "depth_renders ?w1 = depth_renders w + 1"
      using update_first_render [of m w c] assms h due by simp_all
    have "depth_due (lastDepthPassTime ?w1) (now c2)" using f h by (simp add: depth_due_def)
    then show ?thesis using update_due [of m2 ?w1 c2] f h by simp
  qed
  show ?thesis using p1 p2 p3 p4 by blast
qed

theorem depth_render_iff_token_stale_witness:
  "proceeds example_manager \<and> token_unset (lastDepthPassTime example_world) \<and>
   proceeds (example_manager\<lparr>selection_layer := 12\<rparr>) \<and>
   \<not> depth_throws (example_call 1000) \<and> now (example_call 1000) \<noteq> 0 \<and>
   now (example_call 1017) - now (example_call 1000) > 16 \<and>
   depth_renders (fst (snd (update (example_call 1000) example_world example_manager))) = 1 \<and>
   depth_renders (fst (snd (update (example_call 1017)
      (fst (snd (update (example_call 1000) example_world example_manager)))
      (example_manager\<lparr>selection_layer := 12\<rparr>)))) = 2"
proof -
  have h1: "proceeds example_manager" "proceeds (example_manager\<lparr>selection_layer := 12\<rparr>)"
    by (simp_all add: proceeds_def example_manager_def)
  have h2: "token_unset (lastDepthPassTime example_world)"
    by (simp add: token_unset_def example_world_def)
  have h3: "\<not> depth_throws (example_call 1000)" "now (example_call 1000) \<noteq> 0"
     "now (example_call 1017) - now (example_call 1000) > 16"
    by (simp_all add: example_call_def)
  have z: "depth_renders example_world = 0"
    by (simp add: depth_renders_def example_world_def)
  show ?thesis
    using depth_render_iff_token_stale [OF h1(1), of "example_call 1000" example_world
        "example_manager\<lparr>selection_layer := 12\<rparr>" "example_call 1017"] h1 h2 h3 z
    by simp
qed

subsection \<open>Saving and restoring the camera mask and the background\<close>

lemma depth_stage_returned:
  "depth_stage c m w = (Returned u, w1) \<Longrightarrow>
     background w1 = background w \<and> camera_mask w1 = camera_mask w"
  by (auto simp: depth_stage_def Let_def split: if_splits)

lemma mask_stage_returned:
  "mask_stage c m w = (Returned u, w1) \<Longrightarrow>
     background w1 = background w \<and> camera_mask w1 = camera_mask w"
  by (auto simp: mask_stage_def render_mask_at_def Let_def split: if_splits)

text \<open>
  Claim C4, as stated, fails: \<open>update\<close> has no \<open>try\<close>/\<open>finally\<close>. When the depth render
  throws, the scene background stays null; when the mask render throws, the camera's
  layer mask stays narrowed to the rendered layer.
\<close>

theorem update_not_exception_safe:
  "fst (update \<lparr>now = 1000, depth_throws = True, mask_throws = False\<rparr>
      \<lparr>background = Some 7, camera_mask = 1, lastDepthPassTime = None, trace = []\<rparr>
      \<lparr>selectionsByLayer = [(10, [1, 2])], selection_layer = 10, currentLayer = Some 10,
       needsUpdate = True, resolutionScale = 1\<rparr>) = Thrown RenderFailure \<and>
   background (fst (snd (update \<lparr>now = 1000, depth_throws = True, mask_throws = False\<rparr>
      \<lparr>background = Some 7, camera_mask = 1, lastDepthPassTime = None, trace = []\<rparr>
      \<lparr>selectionsByLayer = [(10, [1, 2])], selection_layer = 10, currentLayer = Some 10,
       needsUpdate = True, resolutionScale = 1\<rparr>))) = None \<and>
   background (fst (snd (update \<lparr>now = 1000, depth_throws = True, mask_throws = False\<rparr>
      \<lparr>background = Some 7, camera_mask = 1, lastDepthPassTime = None, trace = []\<rparr>
      \<lparr>selectionsByLayer = [(10, [1, 2])], selection_layer = 10, currentLayer = Some 10,
       needsUpdate = True, resolutionScale = 1\<rparr>))) \<noteq>
     background \<lparr>background = Some 7, camera_mask = 1, lastDepthPassTime = None, trace = []\<rparr> \<and>
   fst (update \<lparr>now = 1000, depth_throws = False, mask_throws = True\<rparr>
      \<lparr>background = Some 7, camera_mask = 1, lastDepthPassTime = None, trace = []\<rparr>
      \<lparr>selectionsByLayer = [(10, [1, 2])], selection_layer = 10, currentLayer = Some 10,
       needsUpdate = True, resolutionScale = 1\<rparr>) = Thrown RenderFailure \<and>
   camera_mask (fst (snd (update \<lparr>now = 1000, depth_throws = False, mask_throws = True\<rparr>
      \<lparr>background = Some 7, camera_mask = 1, lastDepthPassTime = None, trace = []\<rparr>
      \<lparr>selectionsByLayer = [(10, [1, 2])], selection_layer = 10, currentLayer = Some 10,
       needsUpdate = True, resolutionScale = 1\<rparr>))) = 1024 \<and>
   camera_mask (fst (snd (update \<lparr>now = 1000, depth_throws = False, mask_throws = True\<rparr>
      \<lparr>background = Some 7, camera_mask = 1, lastDepthPassTime = None, trace = []\<rparr>
      \<lparr>selectionsByLayer = [(10, [1, 2])], selection_layer = 10, currentLayer = Some 10,
       needsUpdate = True, resolutionScale = 1\<rparr>))) \<noteq>
     camera_mask \<lparr>background = Some 7, camera_mask = 1, lastDepthPassTime = None, trace = []\<rparr>"
  by (simp add: update_def depth_stage_def depth_due_def hasObjects_def Let_def mask_stage_def
      render_mask_at_def current_target_def setVisible_all_def layers_set_def)

text \<open>
  Claim C4, amended. Every call of \<open>update\<close> that returns normally leaves the camera's
  layer mask and the scene background equal to their values at entry.
\<close>

theorem update_restores_on_return:
  assumes "update c w m = (Returned b, w', m')"
  shows "background w' = background w \<and> camera_mask w' = camera_mask w"
proof (cases "\<not> needsUpdate m \<and> \<not> hasObjects m")
  case True
  then show ?thesis using assms by (simp add: update_def)
next
  case False
  obtain r1 w1 where ds: "depth_stage c m w = (r1, w1)" by (cases "depth_stage c m w")
  obtain r2 w2 where ms: "mask_stage c m w1 = (r2, w2)" by (cases "mask_stage c m w1")
  from assms False ds ms have r1: "r1 = Returned ()" and r2: "r2 = Returned ()" and "w' = w2"
    by (auto simp: update_def split: outcome.splits)
  then show ?thesis
    using depth_stage_returned [of c m w "()" w1] mask_stage_returned [of c m w1 "()" w2] ds ms
    by simp
qed

theorem update_restores_on_return_witness:
  "update (example_call 1000) example_world example_manager =
     (Returned True,
      \<lparr>background = Some 7, camera_mask = 1, lastDepthPassTime = Some 1000,
       trace = [SetVisible 10 False, SetVisible 11 False, DepthRender, SetVisible 10 True,
                SetVisible 11 True, MaskRender 2048]\<rparr>,
      example_manager\<lparr>needsUpdate := False\<rparr>) \<and>
   background \<lparr>background = Some 7, camera_mask = 1, lastDepthPassTime = Some 1000,
       trace = [SetVisible 10 False, SetVisible 11 False, DepthRender, SetVisible 10 True,
                SetVisible 11 True, MaskRender 2048]\<rparr> = background example_world \<and>
   camera_mask \<lparr>background = Some 7, camera_mask = 1, lastDepthPassTime = Some 1000,
       trace = [SetVisible 10 False, SetVisible 11 False, DepthRender, SetVisible 10 True,
                SetVisible 11 True, MaskRender 2048]\<rparr> = camera_mask example_world"
proof -
  have h: "update (example_call 1000) example_world example_manager =
     (Returned True,
      \<lparr>background = Some 7, camera_mask = 1, lastDepthPassTime = Some 1000,
       trace = [SetVisible 10 False, SetVisible 11 False, DepthRender, SetVisible 10 True,
                SetVisible 11 True, MaskRender 2048]\<rparr>,
      example_manager\<lparr>needsUpdate := False\<rparr>)"
    by (simp add: update_def depth_stage_def depth_due_def hasObjects_def Let_def mask_stage_def
      render_mask_at_def current_target_def setVisible_all_def layers_set_def
      example_call_def example_world_def example_manager_def)
  show ?thesis using update_restores_on_return [OF h] h by simp
qed

subsection \<open>Reconciling selections\<close>

lemma removeAll_as_filter: "removeAll x l = filter (\<lambda>y. y \<noteq> x) l"
  by (induction l) auto

lemma delete_inactive_fst:
  "fst (delete_inactive active xs sn) = filter (\<lambda>y. y \<in> set active \<or> y \<notin> set xs) (fst sn)"
proof (induction xs arbitrary: sn)
  case Nil
  then show ?case by simp
next
  case (Cons x xs)
  have r: "removeAll x (fst sn) = filter (\<lambda>y. y \<noteq> x) (fst sn)"
    by (rule removeAll_as_filter)
  show ?case
  proof (cases "List.member active x")
    case True
    then show ?thesis using Cons.IH [of sn]
      by (auto simp: List.member_iff intro!: filter_cong)
  next
    case False
    then show ?thesis using Cons.IH [of "(removeAll x (fst sn), True)"]
      by (auto simp: List.member_iff r intro!: filter_cong)
  qed
qed

lemma delete_inactive_self:
  "fst (delete_inactive active sel (sel, nu)) = filter (\<lambda>y. y \<in> set active) sel"
  by (simp add: delete_inactive_fst cong: filter_cong)

lemma clear_entries_fst:
  "fst (clear_entries active ex es nu) =
     map (\<lambda>e. if ex = Some (fst e) then e else (fst e, filter (\<lambda>y. y \<in> set active) (snd e))) es"
proof (induction es arbitrary: nu)
  case Nil
  then show ?case by simp
next
  case (Cons e es)
  show ?case
  proof (cases "ex = Some (fst e)")
    case True
    then show ?thesis using Cons.IH [of nu] by (auto simp: Let_def)
  next
    case False
    then have ne: "Some (fst e) \<noteq> ex" "ex \<noteq> Some (fst e)" by auto
    show ?thesis using Cons.IH delete_inactive_self [of active "snd e" nu]
      by (simp add: Let_def ne)
  qed
qed

text \<open>
  Claim C7. \<open>clearUnused(activeObjects, exceptLayer)\<close> keeps the layers of the map as they
  are and, for the selection at every position \<open>i\<close> of the map: no member that
  \<open>activeObjects\<close> has is removed; if the layer is not \<open>exceptLayer\<close>, every member that
  \<open>activeObjects\<close> does not have is removed; if the layer is \<open>exceptLayer\<close>, the selection is
  unchanged. Nothing is ever added.
\<close>

theorem clearUnused_keeps_active_removes_inactive:
  assumes "i < length (selectionsByLayer m)"
  shows "length (selectionsByLayer (clearUnused active ex m)) = length (selectionsByLayer m) \<and>
         fst (selectionsByLayer (clearUnused active ex m) ! i) = fst (selectionsByLayer m ! i) \<and>
         (\<forall>x \<in> set (snd (selectionsByLayer m ! i)).
            x \<in> set active \<longrightarrow> x \<in> set (snd (selectionsByLayer (clearUnused active ex m) ! i))) \<and>
         (ex \<noteq> Some (fst (selectionsByLayer m ! i)) \<longrightarrow>
            (\<forall>x \<in> set (snd (selectionsByLayer m ! i)).
               x \<notin> set active \<longrightarrow> x \<notin> set (snd (selectionsByLayer (clearUnused active ex m) ! i)))) \<and>
         (ex = Some (fst (selectionsByLayer m ! i)) \<longrightarrow>
            snd (selectionsByLayer (clearUnused active ex m) ! i) = snd (selectionsByLayer m ! i)) \<and>
         set (snd (selectionsByLayer (clearUnused active ex m) ! i)) \<subseteq> set (snd (selectionsByLayer m ! i))"
proof -
  let ?f = "\<lambda>e. if ex = Some (fst e) then e else (fst e, filter (\<lambda>y. y \<in> set active) (snd e))"
  have s: "selectionsByLayer (clearUnused active ex m) = map ?f (selectionsByLayer m)"
    by (simp add: clearUnused_def Let_def clear_entries_fst)
  have n: "selectionsByLayer (clearUnused active ex m) ! i = ?f (selectionsByLayer m ! i)"
    using s assms by simp
  show ?thesis unfolding n using s by auto
qed

theorem clearUnused_keeps_active_removes_inactive_witness:
  "(1::nat) < length (selectionsByLayer example_manager) \<and>
   selectionsByLayer (clearUnused [2] (Some 10) example_manager) = [(10, [1, 2]), (11, [2])] \<and>
   3 \<in> set (snd (selectionsByLayer example_manager ! 1)) \<and> 3 \<notin> set [2::nat] \<and>
   3 \<notin> set (snd (selectionsByLayer (clearUnused [2] (Some 10) example_manager) ! 1))"
proof -
  have h: "(1::nat) < length (selectionsByLayer example_manager)"
    by (simp add: example_manager_def)
  have e: "selectionsByLayer (clearUnused [2] (Some 10) example_manager) = [(10, [1, 2]), (11, [2])]"
    by (simp add: clearUnused_def example_manager_def Let_def List.member_iff)
  have n: "Some 10 \<noteq> Some (fst (selectionsByLayer example_manager ! 1))"
    by (simp add: example_manager_def)
  have i: "3 \<in> set (snd (selectionsByLayer example_manager ! 1))"
    by (simp add: example_manager_def)
  have "3 \<notin> set (snd (selectionsByLayer (clearUnused [2] (Some 10) example_manager) ! 1))"
    using clearUnused_keeps_active_removes_inactive [OF h, of "[2]" "Some 10"] n i by auto
  then show ?thesis using h e i by simp
qed

subsection \<open>Sizing the shared render targets\<close>



























section \<open>Properties of the consumer effect\<close>

lemma clear_calls_append [simp]: "clear_calls (w\<lparr>trace := trace w @ evs\<rparr>) =
   clear_calls w @ filter (\<lambda>e. case e of ClearUnusedCall a l \<Rightarrow> True | _ \<Rightarrow> False) evs"
  by (simp add: clear_calls_def)

lemma update_keeps_clear_calls:
  "clear_calls (fst (snd (update c w m))) = clear_calls w \<and>
   selectionsByLayer (snd (snd (update c w m))) = selectionsByLayer m"
  by (auto simp: update_def depth_stage_def mask_stage_def render_mask_at_def Let_def
      clear_calls_def setVisible_all_def filter_empty_conv
      split: outcome.splits prod.splits if_splits)

lemma clearUnused_selections:
  "selectionsByLayer m1 = selectionsByLayer m2 \<Longrightarrow>
   selectionsByLayer (clearUnused active ex m1) = selectionsByLayer (clearUnused active ex m2)"
  by (simp add: clearUnused_def Let_def clear_entries_fst)

text \<open>
  Claim C8, as stated, fails. The comparison with 2 comes after the manager's update and the
  effect's own renders, and nothing catches an exception on the way. On a call on which
  the counter equals 2 and the depth render throws, \<open>clearUnused\<close> is not invoked and the
  counter is not reset: it stays at 2, the next call raises it to 3, and that call, which
  returns normally, runs no cleanup either.
\<close>

theorem cleanup_skipped_when_update_throws:
  "counter_after \<lparr>activeObjects = Some [3], updateCounter = Some 1, static_currentLayer = None\<rparr> = 2 \<and>
   fst (effect_update
      \<lparr>manager_call = \<lparr>now = 1000, depth_throws = True, mask_throws = False\<rparr>,
       outline_throws = False, blur_throws = False\<rparr>
      \<lparr>eff_selection = [2], selectionLayer = 11, blur_enabled = True\<rparr>
      (\<lparr>background = Some 7, camera_mask = 1, lastDepthPassTime = None, trace = []\<rparr>,
       \<lparr>activeObjects = Some [3], updateCounter = Some 1, static_currentLayer = None\<rparr>,
       \<lparr>selectionsByLayer = [(10, [1, 2]), (11, [2, 3])], selection_layer = 10,
        currentLayer = None, needsUpdate = True, resolutionScale = 1\<rparr>)) = Thrown RenderFailure \<and>
   clear_calls (fst (snd (effect_update
      \<lparr>manager_call = \<lparr>now = 1000, depth_throws = True, mask_throws = False\<rparr>,
       outline_throws = False, blur_throws = False\<rparr>
      \<lparr>eff_selection = [2], selectionLayer = 11, blur_enabled = True\<rparr>
      (\<lparr>background = Some 7, camera_mask = 1, lastDepthPassTime = None, trace = []\<rparr>,
       \<lparr>activeObjects = Some [3], updateCounter = Some 1, static_currentLayer = None\<rparr>,
       \<lparr>selectionsByLayer = [(10, [1, 2]), (11, [2, 3])], selection_layer = 10,
        currentLayer = None, needsUpdate = True, resolutionScale = 1\<rparr>)))) = [] \<and>
   updateCounter (fst (snd (snd (effect_update
      \<lparr>manager_call = \<lparr>now = 1000, depth_throws = True, mask_throws = False\<rparr>,
       outline_throws = False, blur_throws = False\<rparr>
      \<lparr>eff_selection = [2], selectionLayer = 11, blur_enabled = True\<rparr>
      (\<lparr>background = Some 7, camera_mask = 1, lastDepthPassTime = None, trace = []\<rparr>,
       \<lparr>activeObjects = Some [3], updateCounter = Some 1, static_currentLayer = None\<rparr>,
       \<lparr>selectionsByLayer = [(10, [1, 2]), (11, [2, 3])], selection_layer = 10,
        currentLayer = None, needsUpdate = True, resolutionScale = 1\<rparr>))))) = Some 2 \<and>
   fst (effect_update
      \<lparr>manager_call = \<lparr>now = 1020, depth_throws = False, mask_throws = False\<rparr>,
       outline_throws = False, blur_throws = False\<rparr>
      \<lparr>eff_selection = [2], selectionLayer = 11, blur_enabled = True\<rparr>
      (snd (effect_update
        \<lparr>manager_call = \<lparr>now = 1000, depth_throws = True, mask_throws = False\<rparr>,
         outline_throws = False, blur_throws = False\<rparr>
        \<lparr>eff_selection = [2], selectionLayer = 11, blur_enabled = True\<rparr>
        (\<lparr>background = Some 7, camera_mask = 1, lastDepthPassTime = None, trace = []\<rparr>,
         \<lparr>activeObjects = Some [3], updateCounter = Some 1, static_currentLayer = None\<rparr>,
         \<lparr>selectionsByLayer = [(10, [1, 2]), (11, [2, 3])], selection_layer = 10,
          currentLayer = None, needsUpdate = True, resolutionScale = 1\<rparr>)))) = Returned () \<and>
   clear_calls (fst (snd (effect_update
      \<lparr>manager_call = \<lparr>now = 1020, depth_throws = False, mask_throws = False\<rparr>,
       outline_throws = False, blur_throws = False\<rparr>
      \<lparr>eff_selection = [2], selectionLayer = 11, blur_enabled = True\<rparr>
      (snd (effect_update
        \<lparr>manager_call = \<lparr>now = 1000, depth_throws = True, mask_throws = False\<rparr>,
         outline_throws = False, blur_throws = False\<rparr>
        \<lparr>eff_selection = [2], selectionLayer = 11, blur_enabled = True\<rparr>
        (\<lparr>background = Some 7, camera_mask = 1, lastDepthPassTime = None, trace = []\<rparr>,
         \<lparr>activeObjects = Some [3], updateCounter = Some 1, static_currentLayer = None\<rparr>,
         \<lparr>selectionsByLayer = [(10, [1, 2]), (11, [2, 3])], selection_layer = 10,
          currentLayer = None, needsUpdate = True, resolutionScale = 1\<rparr>)))))) = [] \<and>
   updateCounter (fst (snd (snd (effect_update
      \<lparr>manager_call = \<lparr>now = 1020, depth_throws = False, mask_throws = False\<rparr>,
       outline_throws = False, blur_throws = False\<rparr>
      \<lparr>eff_selection = [2], selectionLayer = 11, blur_enabled = True\<rparr>
      (snd (effect_update
        \<lparr>manager_call = \<lparr>now = 1000, depth_throws = True, mask_throws = False\<rparr>,
         outline_throws = False, blur_throws = False\<rparr>
        \<lparr>eff_selection = [2], selectionLayer = 11, blur_enabled = True\<rparr>
        (\<lparr>background = Some 7, camera_mask = 1, lastDepthPassTime = None, trace = []\<rparr>,
         \<lparr>activeObjects = Some [3], updateCounter = Some 1, static_currentLayer = None\<rparr>,
         \<lparr>selectionsByLayer = [(10, [1, 2]), (11, [2, 3])], selection_layer = 10,
          currentLayer = None, needsUpdate = True, resolutionScale = 1\<rparr>))))))) = Some 3"
  by code_simp

text \<open>
  Claim C8, amended. The cleanup is triggered by the class-level update counter compared
  with the literal 2, at the end of the call. On a consumer's \<open>update\<close> call that returns
  normally and on which the counter, after its increment, equals 2, \<open>clearUnused\<close> is
  invoked once, with the accumulated active-object set and the consumer's own layer as the
  excepted layer; then the counter is reset to 0 and the active-object set is cleared. On
  every other call (the counter has another value, or the manager's update, the outline
  render or the blur render threw) \<open>clearUnused\<close> is not invoked, the counter keeps its
  incremented value and the active-object set keeps accumulating.
\<close>

theorem effect_update_cleanup_iff_counter_two:
  assumes "effect_update c e (w, st, m) = (out, w', st', m')"
  shows "(out = Returned () \<and> counter_after st = 2 \<longrightarrow>
            clear_calls w' =
              clear_calls w @ [ClearUnusedCall (active_after e st) (Some (selectionLayer e))] \<and>
            selectionsByLayer m' =
              selectionsByLayer (clearUnused (active_after e st) (Some (selectionLayer e)) (registered e m)) \<and>
            updateCounter st' = Some 0 \<and> activeObjects st' = Some []) \<and>
         (\<not> (out = Returned () \<and> counter_after st = 2) \<longrightarrow>
            clear_calls w' = clear_calls w \<and>
            selectionsByLayer m' = selectionsByLayer (registered e m) \<and>
            updateCounter st' = Some (counter_after st) \<and>
            activeObjects st' = Some (active_after e st))"
proof (cases "eff_selection e = []")
  case True
  then show ?thesis using assms
    by (auto simp: effect_update_def cleanup_def Let_def counter_after_def active_after_def
        registered_def clear_calls_def)
next
  case False
  let ?m1 = "register_selection e (m\<lparr>currentLayer := Some (selectionLayer e)\<rparr>)"
  obtain o2 w2 m2 where u: "update (manager_call c) w ?m1 = (o2, w2, m2)"
    by (cases "update (manager_call c) w ?m1")
  have k: "clear_calls w2 = clear_calls w" "selectionsByLayer m2 = selectionsByLayer ?m1"
    using update_keeps_clear_calls [of "manager_call c" w ?m1] u by simp_all
  have reg: "registered e m = ?m1" using False by (simp add: registered_def)
  define st1 where "st1 = st\<lparr>activeObjects := Some (active_after e st),
                updateCounter := Some (counter_after st),
                static_currentLayer := Some (selectionLayer e)\<rparr>"
  define w3 where "w3 = w2\<lparr>trace := trace w2 @ [OutlineRender]\<rparr>"
  define w4 where "w4 = w3\<lparr>trace := trace w3 @ [BlurRender]\<rparr>"
  have w3: "clear_calls w3 = clear_calls w" using k by (simp add: w3_def)
  have w4: "clear_calls w4 = clear_calls w" using w3 by (simp add: w4_def)
  have thrown: ?thesis
    if "(out, w', st', m') = (Thrown x, wx, st1, m2)" "clear_calls wx = clear_calls w" for x wx
    using that k reg by (simp add: st1_def)
  have returned: ?thesis
    if r: "(out, w', st', m') = (Returned (), cleanup (counter_after st) e (wx, st1, m2))"
      and c: "clear_calls wx = clear_calls w" for wx
  proof (cases "counter_after st = 2")
    case True
    then show ?thesis using r c k reg clearUnused_selections [OF k(2)]
      by (simp add: cleanup_def Let_def st1_def)
  next
    case F: False
    then show ?thesis using r c k reg
      by (simp add: cleanup_def Let_def st1_def)
  qed
  have e: "effect_update c e (w, st, m) =
     (case o2 of
        Thrown x \<Rightarrow> (Thrown x, w2, st1, m2)
      | Returned b \<Rightarrow>
          if outline_throws c then (Thrown RenderFailure, w3, st1, m2)
          else if blur_enabled e then
            (if blur_throws c then (Thrown RenderFailure, w4, st1, m2)
             else (Returned (), cleanup (counter_after st) e (w4, st1, m2)))
          else (Returned (), cleanup (counter_after st) e (w3, st1, m2)))"
    using False u
    by (simp add: effect_update_def Let_def counter_after_def active_after_def w4_def w3_def
        st1_def split: outcome.splits)
  have eq: "(out, w', st', m') =
     (case o2 of
        Thrown x \<Rightarrow> (Thrown x, w2, st1, m2)
      | Returned b \<Rightarrow>
          if outline_throws c then (Thrown RenderFailure, w3, st1, m2)
          else if blur_enabled e then
            (if blur_throws c then (Thrown RenderFailure, w4, st1, m2)
             else (Returned (), cleanup (counter_after st) e (w4, st1, m2)))
          else (Returned (), cleanup (counter_after st) e (w3, st1, m2)))"
    using assms [symmetric] e by (rule trans)
  show ?thesis
  proof (cases o2)
    case (Thrown x)
    have "(out, w', st', m') = (Thrown x, w2, st1, m2)"
      unfolding eq Thrown by (simp only: outcome.case)
    then show ?thesis using k(1) by (rule thrown)
  next
    case (Returned b)
    show ?thesis
    proof (cases "outline_throws c")
      case True
      have "(out, w', st', m') = (Thrown RenderFailure, w3, st1, m2)"
        unfolding eq Returned using True by (simp only: outcome.case if_True)
      then show ?thesis using w3 by (rule thrown)
    next
      case no: False
      show ?thesis
      proof (cases "blur_enabled e")
        case True
        show ?thesis
        proof (cases "blur_throws c")
          case bt: True
          have "(out, w', st', m') = (Thrown RenderFailure, w4, st1, m2)"
            unfolding eq Returned using no True bt by (simp only: outcome.case if_True if_False)
          then show ?thesis using w4 by (rule thrown)
        next
          case bf: False
          have "(out, w', st', m') = (Returned (), cleanup (counter_after st) e (w4, st1, m2))"
            unfolding eq Returned using no True bf by (simp only: outcome.case if_True if_False)
          then show ?thesis using w4 by (rule returned)
        qed
      next
        case False
        have "(out, w', st', m') = (Returned (), cleanup (counter_after st) e (w3, st1, m2))"
          unfolding eq Returned using no False by (simp only: outcome.case if_True if_False)
        then show ?thesis using w3 by (rule returned)
      qed
    qed
  qed
qed

theorem effect_update_cleanup_iff_counter_two_witness:
  "fst (effect_update (example_effect_call 1000) example_effect
          (example_world, example_statics, example_manager)) = Returned () \<and>
   counter_after example_statics = 2 \<and>
   clear_calls (fst (snd (effect_update (example_effect_call 1000) example_effect
          (example_world, example_statics, example_manager)))) =
     [ClearUnusedCall [3, 2] (Some 11)] \<and>
   updateCounter (fst (snd (snd (effect_update (example_effect_call 1000) example_effect
          (example_world, example_statics, example_manager))))) = Some 0 \<and>
   activeObjects (fst (snd (snd (effect_update (example_effect_call 1000) example_effect
          (example_world, example_statics, example_manager))))) = Some []"
proof -
  let ?R = "effect_update (example_effect_call 1000) example_effect
          (example_world, example_statics, example_manager)"
  have h: "?R = (fst ?R, fst (snd ?R), fst (snd (snd ?R)), snd (snd (snd ?R)))"
    by simp
  have o: "fst ?R = Returned ()"
    by code_simp
  have k: "counter_after example_statics = 2"
    by (simp add: counter_after_def example_statics_def)
  have a: "active_after example_effect example_statics = [3, 2]"
    by code_simp
  have z: "clear_calls example_world = []" "selectionLayer example_effect = 11"
    by (simp_all add: clear_calls_def example_world_def example_effect_def)
  show ?thesis
    using effect_update_cleanup_iff_counter_two [OF h] o k a z by simp
qed

section \<open>Properties of the composer\<close>

subsection \<open>The render loop\<close>

lemma calls_of_append: "calls_of (xs @ ys) = calls_of xs @ calls_of ys"
  by (induction xs rule: calls_of.induct) auto

lemma pass_render_facts:
  "store (snd (pass_render i p a b sh c)) = store c \<and>
   useMRT (snd (pass_render i p a b sh c)) = useMRT c \<and>
   (\<exists>rc. events (snd (pass_render i p a b sh c)) = events c @ [PassRender rc] \<and>
      rc_index rc = i \<and> rc_pass rc = p \<and> rc_input rc = a \<and> rc_output rc = b)"
  by (simp add: pass_render_def Let_def)

lemma updateSharedDepthPass_facts:
  "store (snd (updateSharedDepthPass c)) = store c \<and>
   useMRT (snd (updateSharedDepthPass c)) = useMRT c \<and>
   events (snd (updateSharedDepthPass c)) = events c"
  by (simp add: updateSharedDepthPass_def split: option.splits)

lemma try_catch_body_skipped:
  assumes "cls (store (ls_comp s) p) = MRTRenderPassC" "\<not> useMRT (ls_comp s)"
  shows "try_catch (try_body i p s) catch_block = (Returned Skipped, s)"
  using assms by (simp add: try_body_def try_catch_def Let_def)

lemma try_catch_body_rendered:
  assumes "\<not> (cls (store (ls_comp s) p) = MRTRenderPassC \<and> \<not> useMRT (ls_comp s))"
  shows "\<exists>s1 evs rc. try_catch (try_body i p s) catch_block = (Returned Completed, s1) \<and>
      ls_input s1 = ls_input s \<and> ls_output s1 = ls_output s \<and>
      store (ls_comp s1) = store (ls_comp s) \<and> useMRT (ls_comp s1) = useMRT (ls_comp s) \<and>
      events (ls_comp s1) = events (ls_comp s) @ evs \<and> calls_of evs = [rc] \<and>
      rc_index rc = i \<and> rc_pass rc = p \<and> rc_input rc = ls_input s \<and> rc_output rc = ls_output s"
proof -
  let ?c = "ls_comp s"
  show ?thesis
  proof (cases "cls (store ?c p) = MRTRenderPassC")
    case True
    let ?r = "pass_render i p (ls_input s) (ls_output s) False ?c"
    obtain o1 c1 where r: "?r = (o1, c1)" by (cases ?r)
    from pass_render_facts [of i p "ls_input s" "ls_output s" False ?c] r
    obtain rc where c1: "store c1 = store ?c" "useMRT c1 = useMRT ?c"
       "events c1 = events ?c @ [PassRender rc]"
       "rc_index rc = i" "rc_pass rc = p" "rc_input rc = ls_input s" "rc_output rc = ls_output s"
      by auto
    show ?thesis
    proof (cases o1)
      case (Thrown e)
      then show ?thesis using True assms r c1
        by (simp add: try_body_def try_catch_def catch_block_def Let_def calls_of_append)
    next
      case (Returned u)
      then show ?thesis using True assms r c1 updateSharedDepthPass_facts [of c1]
        by (simp add: try_body_def try_catch_def catch_block_def Let_def calls_of_append)
    qed
  next
    case False
    let ?r = "pass_render i p (ls_input s) (ls_output s) (cls (store ?c p) = EffectPassC \<and> ls_validShared s) ?c"
    obtain o1 c1 where r: "?r = (o1, c1)" by (cases ?r)
    from pass_render_facts [of i p "ls_input s" "ls_output s" _ ?c] r
    obtain rc where c1: "store c1 = store ?c" "useMRT c1 = useMRT ?c"
       "events c1 = events ?c @ [PassRender rc]"
       "rc_index rc = i" "rc_pass rc = p" "rc_input rc = ls_input s" "rc_output rc = ls_output s"
      by (metis snd_conv)
    show ?thesis
    proof (cases o1)
      case (Thrown e)
      then show ?thesis using False r c1
        by (simp add: try_body_def try_catch_def catch_block_def Let_def calls_of_append)
    next
      case (Returned u)
      then show ?thesis using False r c1
        by (simp add: try_body_def try_catch_def catch_block_def Let_def calls_of_append)
    qed
  qed
qed

lemma after_try_facts:
  "store (ls_comp (after_try p s)) = store (ls_comp s) \<and>
   useMRT (ls_comp (after_try p s)) = useMRT (ls_comp s) \<and>
   (\<exists>evs. events (ls_comp (after_try p s)) = events (ls_comp s) @ evs \<and> calls_of evs = []) \<and>
   ls_input (after_try p s) = (if needsSwap (store (ls_comp s) p) then ls_output s else ls_input s) \<and>
   ls_output (after_try p s) = (if needsSwap (store (ls_comp s) p) then ls_input s else ls_output s)"
  by (simp add: after_try_def Let_def)

lemma render_iteration_facts:
  "\<exists>s1 evs. render_iteration sk dpi i p s = (Returned (), s1) \<and>
     store (ls_comp s1) = store (ls_comp s) \<and> useMRT (ls_comp s1) = useMRT (ls_comp s) \<and>
     events (ls_comp s1) = events (ls_comp s) @ evs \<and>
     (if loop_renders (store (ls_comp s)) (useMRT (ls_comp s)) sk dpi (i, p)
      then (\<exists>rc. calls_of evs = [rc] \<and> rc_index rc = i \<and> rc_pass rc = p \<and>
              rc_input rc = ls_input s \<and> rc_output rc = ls_output s) \<and>
           ls_input s1 = (if needsSwap (store (ls_comp s) p) then ls_output s else ls_input s) \<and>
           ls_output s1 = (if needsSwap (store (ls_comp s) p) then ls_input s else ls_output s)
      else calls_of evs = [] \<and> ls_input s1 = ls_input s \<and> ls_output s1 = ls_output s)"
proof (cases "loop_renders (store (ls_comp s)) (useMRT (ls_comp s)) sk dpi (i, p)")
  case True
  then have en: "enabled (store (ls_comp s) p)" and nsk: "\<not> (sk \<and> Some i = dpi)"
    and nm: "\<not> (cls (store (ls_comp s) p) = MRTRenderPassC \<and> \<not> useMRT (ls_comp s))"
    by (auto simp: loop_renders_def)
  from try_catch_body_rendered [OF nm, of i]
  obtain s1 evs rc where b: "try_catch (try_body i p s) catch_block = (Returned Completed, s1)"
      "ls_input s1 = ls_input s" "ls_output s1 = ls_output s"
      "store (ls_comp s1) = store (ls_comp s)" "useMRT (ls_comp s1) = useMRT (ls_comp s)"
      "events (ls_comp s1) = events (ls_comp s) @ evs" "calls_of evs = [rc]"
      "rc_index rc = i" "rc_pass rc = p" "rc_input rc = ls_input s" "rc_output rc = ls_output s"
    by blast
  from after_try_facts [of p s1] obtain evs2 where a:
     "store (ls_comp (after_try p s1)) = store (ls_comp s1)"
     "useMRT (ls_comp (after_try p s1)) = useMRT (ls_comp s1)"
     "events (ls_comp (after_try p s1)) = events (ls_comp s1) @ evs2" "calls_of evs2 = []"
     "ls_input (after_try p s1) = (if needsSwap (store (ls_comp s1) p) then ls_output s1 else ls_input s1)"
     "ls_output (after_try p s1) = (if needsSwap (store (ls_comp s1) p) then ls_input s1 else ls_output s1)"
    by blast
  have it: "render_iteration sk dpi i p s = (Returned (), after_try p s1)"
    using en nsk b(1) by (auto simp: render_iteration_def)
  have ev: "events (ls_comp (after_try p s1)) = events (ls_comp s) @ (evs @ evs2)"
    using a(3) b(6) by simp
  have co: "calls_of (evs @ evs2) = [rc]" using a(4) b(7) by (simp add: calls_of_append)
  show ?thesis
    apply (rule exI [of _ "after_try p s1"], rule exI [of _ "evs @ evs2"])
    using True it ev co a b by simp
next
  case False
  show ?thesis
  proof (cases "enabled (store (ls_comp s) p) \<and> \<not> (sk \<and> Some i = dpi)")
    case True
    with False have m: "cls (store (ls_comp s) p) = MRTRenderPassC" "\<not> useMRT (ls_comp s)"
      by (auto simp: loop_renders_def)
    have "render_iteration sk dpi i p s = (Returned (), s)"
      using True try_catch_body_skipped [OF m, of i] by (auto simp: render_iteration_def)
    then show ?thesis using False by simp
  next
    case F2: False
    then have "render_iteration sk dpi i p s = (Returned (), s)"
      by (auto simp: render_iteration_def)
    then show ?thesis using False by simp
  qed
qed

lemma render_loop_facts:
  "\<exists>s1 evs. render_loop sk dpi i ps s = (Returned (), s1) \<and>
     store (ls_comp s1) = store (ls_comp s) \<and> useMRT (ls_comp s1) = useMRT (ls_comp s) \<and>
     events (ls_comp s1) = events (ls_comp s) @ evs \<and>
     swap_chain (store (ls_comp s))
       (filter (loop_renders (store (ls_comp s)) (useMRT (ls_comp s)) sk dpi) (enumerate i ps))
       (ls_input s) (ls_output s) (calls_of evs)"
proof (induction ps arbitrary: i s)
  case Nil
  then show ?case by simp
next
  case (Cons p ps)
  let ?st = "store (ls_comp s)" and ?use = "useMRT (ls_comp s)"
  from render_iteration_facts [of sk dpi i p s]
  obtain s1 evs where it: "render_iteration sk dpi i p s = (Returned (), s1)"
     "store (ls_comp s1) = ?st" "useMRT (ls_comp s1) = ?use"
     "events (ls_comp s1) = events (ls_comp s) @ evs"
     "(if loop_renders ?st ?use sk dpi (i, p)
      then (\<exists>rc. calls_of evs = [rc] \<and> rc_index rc = i \<and> rc_pass rc = p \<and>
              rc_input rc = ls_input s \<and> rc_output rc = ls_output s) \<and>
           ls_input s1 = (if needsSwap (?st p) then ls_output s else ls_input s) \<and>
           ls_output s1 = (if needsSwap (?st p) then ls_input s else ls_output s)
      else calls_of evs = [] \<and> ls_input s1 = ls_input s \<and> ls_output s1 = ls_output s)"
    by blast
  from Cons.IH [of "Suc i" s1]
  obtain s2 evs2 where ih: "render_loop sk dpi (Suc i) ps s1 = (Returned (), s2)"
     "store (ls_comp s2) = store (ls_comp s1)" "useMRT (ls_comp s2) = useMRT (ls_comp s1)"
     "events (ls_comp s2) = events (ls_comp s1) @ evs2"
     "swap_chain (store (ls_comp s1))
       (filter (loop_renders (store (ls_comp s1)) (useMRT (ls_comp s1)) sk dpi) (enumerate (Suc i) ps))
       (ls_input s1) (ls_output s1) (calls_of evs2)"
    by blast
  have z: "enumerate i (p # ps) = (i, p) # enumerate (Suc i) ps"
    by simp
  have lp: "render_loop sk dpi i (p # ps) s = (Returned (), s2)" using it(1) ih(1) by simp
  have ev: "events (ls_comp s2) = events (ls_comp s) @ (evs @ evs2)" using it(4) ih(4) by simp
  have ch: "swap_chain ?st (filter (loop_renders ?st ?use sk dpi) (enumerate i (p # ps)))
       (ls_input s) (ls_output s) (calls_of (evs @ evs2))"
  proof (cases "loop_renders ?st ?use sk dpi (i, p)")
    case True
    with it(5) obtain rc where rc: "calls_of evs = [rc]" "rc_index rc = i" "rc_pass rc = p"
       "rc_input rc = ls_input s" "rc_output rc = ls_output s"
       "ls_input s1 = (if needsSwap (?st p) then ls_output s else ls_input s)"
       "ls_output s1 = (if needsSwap (?st p) then ls_input s else ls_output s)"
      by auto
    show ?thesis using True rc ih(5) it(2,3) unfolding z
      by (cases "needsSwap (?st p)") (simp_all add: calls_of_append)
  next
    case False
    with it(5) have "calls_of evs = []" "ls_input s1 = ls_input s" "ls_output s1 = ls_output s"
      by auto
    then show ?thesis using False ih(5) it(2,3) unfolding z
      by (simp add: calls_of_append)
  qed
  have st2: "store (ls_comp s2) = ?st" "useMRT (ls_comp s2) = ?use"
    using ih(2,3) it(2,3) by simp_all
  show ?case
    apply (rule exI [of _ s2], rule exI [of _ "evs @ evs2"])
    using lp st2 ev ch by simp
qed

lemma render_facts:
  assumes "renderer c \<noteq> None"
  shows "fst (render c) = Returned () \<and> store (snd (render c)) = store c \<and>
     swap_chain (store c) (rendered_passes c) (inputBuffer c) (outputBuffer c) (render_trace c)"
proof -
  let ?s = "\<lparr>ls_input = inputBuffer c, ls_output = outputBuffer c,
                      ls_validShared = (sharedDepthPass c = Some True), ls_comp = c\<rparr>"
  let ?sk = "skipDepthPass_of c" and ?dpi = "find_depthPass (store c) 0 (passes c)"
  from render_loop_facts [of ?sk ?dpi 0 "passes c" ?s]
  obtain s1 evs where l: "render_loop ?sk ?dpi 0 (passes c) ?s = (Returned (), s1)"
     "store (ls_comp s1) = store c" "events (ls_comp s1) = events c @ evs"
     "swap_chain (store c) (filter (loop_renders (store c) (useMRT c) ?sk ?dpi) (enumerate 0 (passes c)))
       (inputBuffer c) (outputBuffer c) (calls_of evs)"
    by auto
  have r: "render c = (Returned (), ls_comp s1)"
    using assms l(1) by (auto simp: render_def Let_def)
  have f: "loop_renders (store c) (useMRT c) ?sk ?dpi = renders_pass c"
    by (rule ext) (simp add: loop_renders_def renders_pass_def)
  show ?thesis using r l f by (simp add: render_trace_def rendered_passes_def)
qed

lemma swap_chain_consecutive:
  "swap_chain st ips a b rcs \<Longrightarrow> Suc k < length rcs \<Longrightarrow>
     (needsSwap (st (rc_pass (rcs ! k))) \<longrightarrow>
        rc_input (rcs ! Suc k) = rc_output (rcs ! k) \<and> rc_output (rcs ! Suc k) = rc_input (rcs ! k)) \<and>
     (\<not> needsSwap (st (rc_pass (rcs ! k))) \<longrightarrow>
        rc_input (rcs ! Suc k) = rc_input (rcs ! k) \<and> rc_output (rcs ! Suc k) = rc_output (rcs ! k))"
proof (induction ips arbitrary: a b rcs k)
  case Nil
  then show ?case by simp
next
  case (Cons ip ips)
  from Cons.prems obtain rc rcs' where rcs: "rcs = rc # rcs'"
    by (cases rcs) auto
  from Cons.prems(1) rcs have hd: "rc_pass rc = snd ip" "rc_input rc = a" "rc_output rc = b"
    and tl: "swap_chain st ips (if needsSwap (st (snd ip)) then b else a)
               (if needsSwap (st (snd ip)) then a else b) rcs'"
    by (auto split: if_splits)
  show ?case
  proof (cases k)
    case 0
    from Cons.prems(2) rcs 0 obtain rc2 rcs2 where r2: "rcs' = rc2 # rcs2"
      by (cases rcs') auto
    from tl r2 obtain ip2 ips2 where "ips = ip2 # ips2" by (cases ips) auto
    with tl r2 have "rc_input rc2 = (if needsSwap (st (snd ip)) then b else a)"
        "rc_output rc2 = (if needsSwap (st (snd ip)) then a else b)"
      by auto
    then show ?thesis using 0 rcs r2 hd by simp
  next
    case (Suc j)
    then show ?thesis using Cons.IH [OF tl, of j] Cons.prems(2) rcs by simp
  qed
qed

lemma swap_chain_map:
  "swap_chain st ips a b rcs \<Longrightarrow> map (\<lambda>rc. (rc_index rc, rc_pass rc)) rcs = ips"
proof (induction ips arbitrary: a b rcs)
  case Nil
  then show ?case by simp
next
  case (Cons ip ips)
  then show ?case by (cases rcs) (auto split: if_splits)
qed

lemma swap_chain_seed:
  "swap_chain st ips a b rcs \<Longrightarrow> rcs \<noteq> [] \<Longrightarrow> rc_input (hd rcs) = a \<and> rc_output (hd rcs) = b"
  by (cases ips; cases rcs) auto

lemma render_no_renderer:
  "renderer c = None \<Longrightarrow> fst (render c) = Returned () \<and> render_trace c = []"
  by (simp add: render_def render_trace_def)

lemma rendered_passes_sorted: "sorted_wrt (\<lambda>x y. fst x < fst y) (rendered_passes c)"
proof -
  have s: "sorted_wrt (<) (map fst (enumerate 0 (passes c)))"
    by (simp add: map_fst_enumerate)
  have "sorted_wrt (\<lambda>x y. fst x < fst y) (enumerate 0 (passes c))"
    using s unfolding sorted_wrt_map .
  then show ?thesis unfolding rendered_passes_def by (rule sorted_wrt_filter)
qed

lemma rendered_passes_nth:
  "x \<in> set (rendered_passes c) \<Longrightarrow> fst x < length (passes c) \<and> snd x = passes c ! fst x"
  by (cases x) (auto simp: rendered_passes_def in_set_enumerate_eq)

lemma render_trace_chain:
  "swap_chain (store c) (if renderer c = None then [] else rendered_passes c)
     (inputBuffer c) (outputBuffer c) (render_trace c)"
  using render_facts [of c] render_no_renderer [of c] by (cases "renderer c") auto

lemma example_trace:
  "render_trace example_composer =
     [\<lparr>rc_index = 0, rc_pass = UserPass 0, rc_input = 0, rc_output = 1, rc_stencil = False, rc_shared = False\<rparr>,
      \<lparr>rc_index = 1, rc_pass = UserPass 1, rc_input = 1, rc_output = 0, rc_stencil = False, rc_shared = False\<rparr>,
      \<lparr>rc_index = 2, rc_pass = UserPass 2, rc_input = 0, rc_output = 1, rc_stencil = False, rc_shared = False\<rparr>]"
  by code_simp

text \<open>
  Claim C2. Among the render calls that one \<open>composer.render()\<close> makes on its passes, taken
  in order: the first call receives the composer's input and output buffers, every call
  is made on the pass at its index, indices increase, and for two consecutive calls the
  later one receives as input the very handle the earlier one received as output (and as
  output its input) when the earlier pass has \<open>needsSwap\<close>, and the same input/output pair
  when it has not. In particular, with \<open>needsSwap\<close> on every pass, each pass reads the
  buffer the pass before it wrote.
\<close>

theorem render_buffer_chain:
  assumes "Suc k < length (render_trace c)"
  shows "(needsSwap (store c (rc_pass (render_trace c ! k))) \<longrightarrow>
            rc_input (render_trace c ! Suc k) = rc_output (render_trace c ! k) \<and>
            rc_output (render_trace c ! Suc k) = rc_input (render_trace c ! k)) \<and>
         (\<not> needsSwap (store c (rc_pass (render_trace c ! k))) \<longrightarrow>
            rc_input (render_trace c ! Suc k) = rc_input (render_trace c ! k) \<and>
            rc_output (render_trace c ! Suc k) = rc_output (render_trace c ! k)) \<and>
         rc_index (render_trace c ! k) < rc_index (render_trace c ! Suc k) \<and>
         rc_pass (render_trace c ! k) = passes c ! rc_index (render_trace c ! k) \<and>
         rc_pass (render_trace c ! Suc k) = passes c ! rc_index (render_trace c ! Suc k) \<and>
         rc_input (render_trace c ! 0) = inputBuffer c \<and>
         rc_output (render_trace c ! 0) = outputBuffer c"
proof -
  let ?tr = "render_trace c"
  let ?ips = "if renderer c = None then [] else rendered_passes c"
  have ch: "swap_chain (store c) ?ips (inputBuffer c) (outputBuffer c) ?tr"
    by (rule render_trace_chain)
  have mp: "map (\<lambda>rc. (rc_index rc, rc_pass rc)) ?tr = ?ips"
    using ch by (rule swap_chain_map)
  have ne: "renderer c \<noteq> None"
  proof
    assume "renderer c = None"
    then have "?tr = []" using render_no_renderer [of c] by simp
    with assms show False by simp
  qed
  have mp': "map (\<lambda>rc. (rc_index rc, rc_pass rc)) ?tr = rendered_passes c"
    using mp ne by (auto split: if_splits)
  have len: "length (rendered_passes c) = length ?tr"
    using arg_cong [OF mp', of length] by simp
  have nth: "rendered_passes c ! j = (rc_index (?tr ! j), rc_pass (?tr ! j))"
    if "j < length ?tr" for j
  proof -
    have "map (\<lambda>rc. (rc_index rc, rc_pass rc)) ?tr ! j = (rc_index (?tr ! j), rc_pass (?tr ! j))"
      using that by (rule nth_map)
    then show ?thesis using mp' by simp
  qed
  have in_set: "(rc_index (?tr ! j), rc_pass (?tr ! j)) \<in> set (rendered_passes c)"
    if "j < length ?tr" for j
    using nth [OF that] len nth_mem [of j "rendered_passes c"] that by simp
  have a: "rc_pass (?tr ! k) = passes c ! rc_index (?tr ! k)"
    using rendered_passes_nth [OF in_set [of k]] assms by simp
  have b: "rc_pass (?tr ! Suc k) = passes c ! rc_index (?tr ! Suc k)"
    using rendered_passes_nth [OF in_set [of "Suc k"]] assms by simp
  have "fst (rendered_passes c ! k) < fst (rendered_passes c ! Suc k)"
    using sorted_wrt_nth_less [OF rendered_passes_sorted [of c], of k "Suc k"] assms len by simp
  then have d: "rc_index (?tr ! k) < rc_index (?tr ! Suc k)"
    using nth [of k] nth [of "Suc k"] assms by simp
  have "?tr \<noteq> []" using assms by auto
  then have e: "rc_input (?tr ! 0) = inputBuffer c \<and> rc_output (?tr ! 0) = outputBuffer c"
    using swap_chain_seed [OF ch] by (simp add: hd_conv_nth)
  show ?thesis
    using swap_chain_consecutive [OF ch assms] a b d e by simp
qed

theorem render_buffer_chain_witness:
  "Suc 0 < length (render_trace example_composer) \<and>
   needsSwap (store example_composer (rc_pass (render_trace example_composer ! 0))) \<and>
   rc_input (render_trace example_composer ! Suc 0) = rc_output (render_trace example_composer ! 0)"
proof -
  have h: "Suc 0 < length (render_trace example_composer)"
    by (simp add: example_trace)
  have n: "needsSwap (store example_composer (rc_pass (render_trace example_composer ! 0)))"
    by code_simp
  show ?thesis using render_buffer_chain [OF h] h n by blast
qed

text \<open>
  Claim C3. \<open>composer.render\<close> never ends with an exception, whichever passes throw in their
  \<open>render\<close>: each exception is caught at the pass that raised it. The passes on which
  \<open>render\<close> is called are exactly the passes of the list that are enabled and not skipped,
  in list order; this does not depend on which of them throw.
\<close>

theorem render_survives_pass_failure:
  "fst (render c) = Returned () \<and>
   map (\<lambda>rc. (rc_index rc, rc_pass rc)) (render_trace c) =
     (if renderer c = None then [] else rendered_passes c)"
proof -
  have "fst (render c) = Returned ()"
    using render_facts [of c] render_no_renderer [of c] by (cases "renderer c") auto
  moreover have "map (\<lambda>rc. (rc_index rc, rc_pass rc)) (render_trace c) =
     (if renderer c = None then [] else rendered_passes c)"
    using render_trace_chain [of c] by (rule swap_chain_map)
  ultimately show ?thesis by simp
qed

theorem render_survives_pass_failure_witness:
  "render_throws (store example_composer (UserPass 1)) \<and>
   fst (render example_composer) = Returned () \<and>
   map (\<lambda>rc. (rc_index rc, rc_pass rc)) (render_trace example_composer) =
     [(0, UserPass 0), (1, UserPass 1), (2, UserPass 2)]"
proof -
  have t: "render_throws (store example_composer (UserPass 1))"
    by code_simp
  have m: "map (\<lambda>rc. (rc_index rc, rc_pass rc)) (render_trace example_composer) =
     [(0, UserPass 0), (1, UserPass 1), (2, UserPass 2)]"
    by (simp add: example_trace)
  show ?thesis using render_survives_pass_failure [of example_composer] t m by blast
qed

subsection \<open>The shared depth texture and the multi-target substitute\<close>

lemma modify_pass_fields [simp]:
  "passes (modify_pass p f c) = passes c"
  "depthTexture (modify_pass p f c) = depthTexture c"
  "live_textures (modify_pass p f c) = live_textures c"
  "disposed_textures (modify_pass p f c) = disposed_textures c"
  "autoRenderToScreen (modify_pass p f c) = autoRenderToScreen c"
  "renderer (modify_pass p f c) = renderer c"
  "next_texture (modify_pass p f c) = next_texture c"
  "store (modify_pass p f c) q = (if q = p then f (store c p) else store c q)"
  by (simp_all add: modify_pass_def)

lemma setDepthTexture_all_fields [simp]:
  "passes (setDepthTexture_all t ps c) = passes c"
  "depthTexture (setDepthTexture_all t ps c) = depthTexture c"
  "live_textures (setDepthTexture_all t ps c) = live_textures c"
  "disposed_textures (setDepthTexture_all t ps c) = disposed_textures c"
  "autoRenderToScreen (setDepthTexture_all t ps c) = autoRenderToScreen c"
  by (induction ps arbitrary: c) simp_all

lemma setDepthTexture_all_needs [simp]:
  "needsDepthTexture (store (setDepthTexture_all t ps c) q) = needsDepthTexture (store c q)"
  by (induction ps arbitrary: c) (simp_all add: setDepthTexture_def)

lemma setDepthTexture_all_tex [simp]:
  "p_depthTexture (store (setDepthTexture_all t ps c) q) =
     (if q \<in> set ps then t else p_depthTexture (store c q))"
  by (induction ps arbitrary: c) (auto simp: setDepthTexture_def)

lemma set_insert_pass [simp]: "set (insert_pass index p ps) = insert p (set ps)"
proof (cases index)
  case None
  then show ?thesis by (simp add: insert_pass_def)
next
  case (Some i)
  define k where "k = nat (if i < 0 then max (int (length ps) + i) 0 else min i (int (length ps)))"
  have "set (take k ps) \<union> set (drop k ps) = set ps"
    using set_append [of "take k ps" "drop k ps"] by simp
  then have "set (take k ps @ [p] @ drop k ps) = insert p (set ps)"
    by auto
  then show ?thesis using Some by (simp add: insert_pass_def Let_def k_def)
qed

lemma foldl_or: "foldl (\<lambda>a b. a \<or> P b) a0 xs = (a0 \<or> list_ex P xs)"
  by (induction xs arbitrary: a0) auto

lemma indexOf_Some: "indexOf ps p = Some i \<Longrightarrow> i < length ps \<and> ps ! i = p"
proof (induction ps arbitrary: i)
  case Nil
  then show ?case by simp
next
  case (Cons q qs)
  then show ?case by (cases "q = p") auto
qed

lemma indexOf_None: "indexOf ps p = None \<Longrightarrow> p \<notin> set ps"
  by (induction ps) (auto split: if_splits)

lemma set_remove_at: "set (take i ps @ drop (Suc i) ps) \<subseteq> set ps"
  by (auto dest: in_set_takeD in_set_dropD)

lemma provide_depthTexture_inv:
  assumes "depthTexture c \<noteq> None \<longrightarrow>
             (\<forall>q \<in> set (passes c). q \<noteq> p \<longrightarrow> p_depthTexture (store c q) = depthTexture c)"
    and "live_textures c = (case depthTexture c of None \<Rightarrow> [] | Some t \<Rightarrow> [t])"
    and "depthTexture c = None \<longrightarrow>
           (\<forall>q \<in> set (passes c). q \<noteq> p \<longrightarrow> \<not> needsDepthTexture (store c q))"
    and "depthTexture c \<noteq> None \<longrightarrow> (\<exists>q \<in> set (passes c). needsDepthTexture (store c q))"
    and "p \<in> set (passes c)"
  shows "depth_inv (provide_depthTexture p c)"
proof (cases "depthTexture c")
  case None
  show ?thesis
  proof (cases "needsDepthTexture (store c p)")
    case True
    then show ?thesis using None assms
      by (auto simp: provide_depthTexture_def depth_inv_def createDepthTexture_def Let_def)
  next
    case False
    then show ?thesis using None assms
      by (auto simp: provide_depthTexture_def depth_inv_def)
  qed
next
  case (Some t)
  then show ?thesis using assms
    by (auto simp: provide_depthTexture_def depth_inv_def setDepthTexture_def)
qed

lemma add_plain_thrown:
  assumes "renderer c = None \<or> context_throws env"
  shows "add_plain env p index c = (Thrown TypeError, c)"
  using assms by (auto simp: add_plain_def split: option.splits)

lemma add_plain_returned:
  assumes "renderer c = Some rd" "\<not> context_throws env"
  shows "add_plain env p index c =
     (let c1 = modify_pass p (\<lambda>ps. ps\<lparr>p_size := Some (drawingBufferSize rd), p_initialized := True\<rparr>) c;
          c2 = (if autoRenderToScreen c1 \<and> passes c1 \<noteq> []
                then modify_pass (last (passes c1)) (\<lambda>ps. ps\<lparr>renderToScreen := False\<rparr>) c1
                else c1);
          c3 = (if autoRenderToScreen c2 \<and> renderToScreen (store c2 p)
                then c2\<lparr>autoRenderToScreen := False\<rparr> else c2);
          c4 = c3\<lparr>passes := insert_pass index p (passes c3)\<rparr>;
          c5 = (if autoRenderToScreen c4
                then modify_pass (last (passes c4)) (\<lambda>ps. ps\<lparr>renderToScreen := True\<rparr>) c4
                else c4)
      in (Returned (), provide_depthTexture p c5))"
  unfolding add_plain_def assms(1) using assms(2) by (simp only: option.case if_False)

lemma add_plain_pre:
  assumes "renderer c \<noteq> None" "\<not> context_throws env"
  shows "\<exists>c5. add_plain env p index c = (Returned (), provide_depthTexture p c5) \<and>
           passes c5 = insert_pass index p (passes c) \<and>
           depthTexture c5 = depthTexture c \<and> live_textures c5 = live_textures c \<and>
           disposed_textures c5 = disposed_textures c \<and>
           (\<forall>q. needsDepthTexture (store c5 q) = needsDepthTexture (store c q) \<and>
                p_depthTexture (store c5 q) = p_depthTexture (store c q) \<and>
                cls (store c5 q) = cls (store c q))"
proof -
  obtain rd where Some: "renderer c = Some rd" using assms(1) by auto
  define c1 where "c1 = modify_pass p (\<lambda>ps. ps\<lparr>p_size := Some (drawingBufferSize rd), p_initialized := True\<rparr>) c"
  define c2 where "c2 = (if autoRenderToScreen c1 \<and> passes c1 \<noteq> []
                     then modify_pass (last (passes c1)) (\<lambda>ps. ps\<lparr>renderToScreen := False\<rparr>) c1
                     else c1)"
  define c3 where "c3 = (if autoRenderToScreen c2 \<and> renderToScreen (store c2 p)
                     then c2\<lparr>autoRenderToScreen := False\<rparr> else c2)"
  define c4 where "c4 = c3\<lparr>passes := insert_pass index p (passes c3)\<rparr>"
  define c5 where "c5 = (if autoRenderToScreen c4
                     then modify_pass (last (passes c4)) (\<lambda>ps. ps\<lparr>renderToScreen := True\<rparr>) c4
                     else c4)"
  have r: "add_plain env p index c = (Returned (), provide_depthTexture p c5)"
    unfolding add_plain_returned [OF Some assms(2)] c5_def c4_def c3_def c2_def c1_def Let_def ..
  have f1: "passes c1 = passes c" "depthTexture c1 = depthTexture c" "live_textures c1 = live_textures c"
     "disposed_textures c1 = disposed_textures c"
     "\<And>q. needsDepthTexture (store c1 q) = needsDepthTexture (store c q) \<and>
          p_depthTexture (store c1 q) = p_depthTexture (store c q) \<and> cls (store c1 q) = cls (store c q)"
    by (simp_all add: c1_def)
  have f2: "passes c2 = passes c" "depthTexture c2 = depthTexture c" "live_textures c2 = live_textures c"
     "disposed_textures c2 = disposed_textures c"
     "\<And>q. needsDepthTexture (store c2 q) = needsDepthTexture (store c q) \<and>
          p_depthTexture (store c2 q) = p_depthTexture (store c q) \<and> cls (store c2 q) = cls (store c q)"
    using f1 by (simp_all add: c2_def)
  have f3: "passes c3 = passes c" "depthTexture c3 = depthTexture c" "live_textures c3 = live_textures c"
     "disposed_textures c3 = disposed_textures c"
     "\<And>q. needsDepthTexture (store c3 q) = needsDepthTexture (store c q) \<and>
          p_depthTexture (store c3 q) = p_depthTexture (store c q) \<and> cls (store c3 q) = cls (store c q)"
    using f2 by (simp_all add: c3_def)
  have f4: "passes c4 = insert_pass index p (passes c)" "depthTexture c4 = depthTexture c"
     "live_textures c4 = live_textures c" "disposed_textures c4 = disposed_textures c"
     "\<And>q. needsDepthTexture (store c4 q) = needsDepthTexture (store c q) \<and>
          p_depthTexture (store c4 q) = p_depthTexture (store c q) \<and> cls (store c4 q) = cls (store c q)"
    using f3 by (simp_all add: c4_def)
  have f5: "passes c5 = insert_pass index p (passes c)" "depthTexture c5 = depthTexture c"
     "live_textures c5 = live_textures c" "disposed_textures c5 = disposed_textures c"
     "\<And>q. needsDepthTexture (store c5 q) = needsDepthTexture (store c q) \<and>
          p_depthTexture (store c5 q) = p_depthTexture (store c q) \<and> cls (store c5 q) = cls (store c q)"
    using f4 by (simp_all add: c5_def)
  show ?thesis using r f5 by blast
qed

lemma add_plain_inv:
  assumes "depth_inv c"
  shows "depth_inv (snd (add_plain env p index c))"
proof (cases "renderer c = None \<or> context_throws env")
  case True
  then show ?thesis using assms by (simp add: add_plain_thrown)
next
  case False
  then have h: "renderer c \<noteq> None" "\<not> context_throws env" by simp_all
  from add_plain_pre [OF h, of p index] obtain c5 where
     c5: "add_plain env p index c = (Returned (), provide_depthTexture p c5)"
     "passes c5 = insert_pass index p (passes c)" "depthTexture c5 = depthTexture c"
     "live_textures c5 = live_textures c"
     "\<And>q. needsDepthTexture (store c5 q) = needsDepthTexture (store c q)"
     "\<And>q. p_depthTexture (store c5 q) = p_depthTexture (store c q)"
    by blast
  have "depth_inv (provide_depthTexture p c5)"
    by (rule provide_depthTexture_inv) (use assms c5(2-) in \<open>auto simp: depth_inv_def\<close>)
  then show ?thesis unfolding c5(1) by simp
qed

lemma createRenderTargets_keeps:
  "needsDepthTexture (snd (createRenderTargets env ps)) = needsDepthTexture ps \<and>
   cls (snd (createRenderTargets env ps)) = cls ps"
  by (simp add: createRenderTargets_def split: option.splits alloc_result.splits)

lemma mrt_initialize_keeps:
  "needsDepthTexture (snd (mrt_initialize r env ps)) = needsDepthTexture ps \<and>
   cls (snd (mrt_initialize r env ps)) = cls ps"
  by (simp add: mrt_initialize_def Let_def createRenderTargets_keeps
      split: option.splits alloc_result.splits)

lemma setMRTRenderPass_facts:
  assumes "setMRTRenderPass env c = (r, c1)"
  shows "passes c1 = passes c \<and> depthTexture c1 = depthTexture c \<and>
         live_textures c1 = live_textures c \<and> disposed_textures c1 = disposed_textures c \<and>
         renderer c1 = renderer c \<and> autoRenderToScreen c1 = autoRenderToScreen c \<and>
         (\<forall>q. q \<noteq> MRTPass (next_mrt c) \<longrightarrow> store c1 q = store c q) \<and>
         (\<forall>q. r = Some q \<longrightarrow> q = MRTPass (next_mrt c) \<and> \<not> needsDepthTexture (store c1 q) \<and>
              cls (store c1 q) = MRTRenderPassC) \<and>
         ((r \<noteq> None) = (useMRT c \<and> \<not> ctor_throws env \<and> renderer c \<noteq> None \<and>
              \<not> mrt_context_throws env \<and>
              fst (mrt_initialize (renderer c) env new_MRTRenderPass)))"
proof (cases "useMRT c \<and> \<not> ctor_throws env \<and> renderer c \<noteq> None \<and> \<not> mrt_context_throws env")
  case False
  then show ?thesis using assms
    by (auto simp: setMRTRenderPass_def Let_def split: if_splits)
next
  case True
  have k: "needsDepthTexture (snd (mrt_initialize (renderer c) env new_MRTRenderPass)) = False"
     "cls (snd (mrt_initialize (renderer c) env new_MRTRenderPass)) = MRTRenderPassC"
    using mrt_initialize_keeps [of "renderer c" env new_MRTRenderPass]
    by (simp_all add: new_MRTRenderPass_def)
  show ?thesis using True assms k
    by (auto simp: setMRTRenderPass_def Let_def split: if_splits)
qed

lemma addPass_inv:
  assumes "depth_inv c"
  shows "depth_inv (snd (addPass env p index c))"
proof (cases "useMRT c \<and> passes c = [] \<and> cls (store c p) = RenderPassC")
  case False
  then have "addPass env p index c = add_plain env p index c" by (auto simp: addPass_def)
  then show ?thesis using add_plain_inv [OF assms] by simp
next
  case True
  obtain r c1 where s: "setMRTRenderPass env c = (r, c1)" by (cases "setMRTRenderPass env c")
  note f = setMRTRenderPass_facts [OF s]
  have e: "passes c1 = []" "depthTexture c1 = None" "live_textures c1 = []"
    using f True assms by (auto simp: depth_inv_def split: option.splits)
  have i1: "depth_inv c1" using e by (simp add: depth_inv_def)
  show ?thesis
  proof (cases r)
    case None
    have "addPass env p index c = add_plain env p index c1" using True s None by (simp add: addPass_def)
    then show ?thesis using add_plain_inv [OF i1] by simp
  next
    case (Some q)
    then have q: "\<not> needsDepthTexture (store c1 q)" using f by blast
    show ?thesis
    proof (cases "renderer c1")
      case N: None
      then have "addPass env p index c = (Thrown TypeError, c1)"
        using True s Some by (simp add: addPass_def)
      then show ?thesis using i1 by simp
    next
      case (Some rd)
      have "addPass env p index c =
          (Returned (), (modify_pass q (\<lambda>ps. ps\<lparr>p_size := Some (drawingBufferSize rd)\<rparr>) c1)
                         \<lparr>passes := passes c1 @ [q]\<rparr>)"
        using True s \<open>r = Some q\<close> Some by (simp add: addPass_def)
      then show ?thesis using e q by (simp add: depth_inv_def)
    qed
  qed
qed

lemma deleteDepthTexture_facts:
  assumes "depthTexture c = Some t"
  shows "passes (deleteDepthTexture c) = passes c \<and> depthTexture (deleteDepthTexture c) = None \<and>
         live_textures (deleteDepthTexture c) = removeAll t (live_textures c) \<and>
         disposed_textures (deleteDepthTexture c) = disposed_textures c @ [t] \<and>
         autoRenderToScreen (deleteDepthTexture c) = autoRenderToScreen c \<and>
         (\<forall>q. needsDepthTexture (store (deleteDepthTexture c) q) = needsDepthTexture (store c q) \<and>
              p_depthTexture (store (deleteDepthTexture c) q) =
                (if q \<in> set (passes c) then None else p_depthTexture (store c q)))"
  using assms by (simp add: deleteDepthTexture_def)

lemma removePass_shape:
  assumes "indexOf (passes c) p = Some i"
  shows "passes (removePass p c) = passes (removePass_core p i c) \<and>
         depthTexture (removePass p c) = depthTexture (removePass_core p i c) \<and>
         live_textures (removePass p c) = live_textures (removePass_core p i c) \<and>
         disposed_textures (removePass p c) = disposed_textures (removePass_core p i c) \<and>
         (\<forall>q. needsDepthTexture (store (removePass p c) q) =
                needsDepthTexture (store (removePass_core p i c) q) \<and>
              p_depthTexture (store (removePass p c) q) =
                p_depthTexture (store (removePass_core p i c) q))"
proof -
  define c2 where "c2 = removePass_core p i c"
  have "removePass p c =
      (if autoRenderToScreen c2 \<and> i = length (passes c2) then
         (let c3 = modify_pass p (\<lambda>ps. ps\<lparr>renderToScreen := False\<rparr>) c2
          in if passes c3 \<noteq> []
             then modify_pass (last (passes c3)) (\<lambda>ps. ps\<lparr>renderToScreen := True\<rparr>) c3
             else c3)
       else c2)"
    unfolding removePass_def c2_def removePass_core_def assms Let_def
    by (simp only: option.case)
  then show ?thesis unfolding c2_def [symmetric] by (simp add: Let_def)
qed

lemma removePass_core_facts:
  assumes "depth_inv c" "i < length (passes c)"
  shows "passes (removePass_core p i c) = take i (passes c) @ drop (Suc i) (passes c) \<and>
         (\<forall>q. needsDepthTexture (store (removePass_core p i c) q) = needsDepthTexture (store c q)) \<and>
         depth_inv (removePass_core p i c) \<and>
         (\<forall>t. depthTexture c = Some t \<and>
              (\<forall>q \<in> set (take i (passes c) @ drop (Suc i) (passes c)). \<not> needsDepthTexture (store c q)) \<longrightarrow>
              depthTexture (removePass_core p i c) = None \<and>
              live_textures (removePass_core p i c) = [] \<and>
              disposed_textures (removePass_core p i c) = disposed_textures c @ [t] \<and>
              (\<forall>q \<in> set (take i (passes c) @ drop (Suc i) (passes c)).
                 p_depthTexture (store (removePass_core p i c) q) = None) \<and>
              (p_depthTexture (store c p) = Some t \<longrightarrow>
                 p_depthTexture (store (removePass_core p i c) p) = None))"
proof -
  let ?ps' = "take i (passes c) @ drop (Suc i) (passes c)"
  have sub: "set ?ps' \<subseteq> set (passes c)" by (rule set_remove_at)
  show ?thesis
  proof (cases "depthTexture c")
    case None
    then show ?thesis using assms sub
      by (auto simp: removePass_core_def depth_inv_def Let_def)
  next
    case (Some t)
    show ?thesis
    proof (cases "\<exists>q \<in> set ?ps'. needsDepthTexture (store c q)")
      case True
      then have "removePass_core p i c = c\<lparr>passes := ?ps'\<rparr>"
        using Some by (auto simp: removePass_core_def Let_def foldl_or list_ex_iff)
      then show ?thesis using assms sub True Some
        by (auto simp: depth_inv_def)
    next
      case False
      define c1 where "c1 = c\<lparr>passes := ?ps'\<rparr>"
      define c1' where "c1' = (if p_depthTexture (store c1 p) = depthTexture c1
                    then modify_pass p (setDepthTexture None) c1 else c1)"
      have r: "removePass_core p i c = deleteDepthTexture c1'"
        using Some False
        by (auto simp: removePass_core_def Let_def foldl_or list_ex_iff c1_def c1'_def)
      have d: "depthTexture c1' = Some t" "passes c1' = ?ps'"
         "live_textures c1' = live_textures c" "disposed_textures c1' = disposed_textures c"
         "\<And>q. needsDepthTexture (store c1' q) = needsDepthTexture (store c q)"
         "p_depthTexture (store c p) = Some t \<Longrightarrow> p_depthTexture (store c1' p) = None"
        using Some by (simp_all add: c1'_def c1_def setDepthTexture_def)
      note f = deleteDepthTexture_facts [OF d(1)]
      have live: "live_textures c = [t]" using assms(1) Some by (simp add: depth_inv_def)
      show ?thesis unfolding r using f d False live Some
        by (auto simp: depth_inv_def)
    qed
  qed
qed

lemma removePass_inv:
  assumes "depth_inv c"
  shows "depth_inv (removePass p c)"
proof (cases "indexOf (passes c) p")
  case None
  then show ?thesis using assms by (simp add: removePass_def)
next
  case (Some i)
  then have i: "i < length (passes c)" using indexOf_Some by blast
  from removePass_core_facts [OF assms i, of p] have "depth_inv (removePass_core p i c)" by blast
  then show ?thesis using removePass_shape [OF Some]
    by (simp add: depth_inv_def)
qed

lemma new_composer_inv: "depth_inv (new_composer r probe heap)"
  by (auto simp: new_composer_def depth_inv_def checkMRTSupport_def cleanupMRTResources_def Let_def
      split: option.splits)

lemma reachable_inv: "reachable c \<Longrightarrow> depth_inv c"
proof (induction rule: reachable.induct)
  case (reach_new r probe heap)
  show ?case by (rule new_composer_inv)
next
  case (reach_add c env p index)
  show ?case using reach_add.IH by (rule addPass_inv)
next
  case (reach_remove c p)
  show ?case using reach_remove.IH by (rule removePass_inv)
qed

lemma insert_pass_empty [simp]: "insert_pass index p [] = [p]"
  by (simp add: insert_pass_def Let_def split: option.splits)

lemma provide_depthTexture_keeps:
  "passes (provide_depthTexture p c) = passes c \<and>
   (\<forall>q. cls (store (provide_depthTexture p c) q) = cls (store c q) \<and>
        enabled (store (provide_depthTexture p c) q) = enabled (store c q) \<and>
        needsSwap (store (provide_depthTexture p c) q) = needsSwap (store c q) \<and>
        needsDepthTexture (store (provide_depthTexture p c) q) = needsDepthTexture (store c q) \<and>
        render_throws (store (provide_depthTexture p c) q) = render_throws (store c q))"
proof -
  have a: "\<And>t ps c q. cls (store (setDepthTexture_all t ps c) q) = cls (store c q) \<and>
        enabled (store (setDepthTexture_all t ps c) q) = enabled (store c q) \<and>
        needsSwap (store (setDepthTexture_all t ps c) q) = needsSwap (store c q) \<and>
        render_throws (store (setDepthTexture_all t ps c) q) = render_throws (store c q)"
  proof -
    fix t ps c q
    show "cls (store (setDepthTexture_all t ps c) q) = cls (store c q) \<and>
        enabled (store (setDepthTexture_all t ps c) q) = enabled (store c q) \<and>
        needsSwap (store (setDepthTexture_all t ps c) q) = needsSwap (store c q) \<and>
        render_throws (store (setDepthTexture_all t ps c) q) = render_throws (store c q)"
      by (induction ps arbitrary: c) (simp_all add: setDepthTexture_def)
  qed
  show ?thesis
    by (simp add: provide_depthTexture_def createDepthTexture_def Let_def a setDepthTexture_def
        split: option.splits)
qed

lemma add_plain_first:
  assumes "passes c = []" "renderer c \<noteq> None" "\<not> context_throws env"
  shows "fst (add_plain env p index c) = Returned () \<and>
         passes (snd (add_plain env p index c)) = [p] \<and>
         cls (store (snd (add_plain env p index c)) p) = cls (store c p) \<and>
         enabled (store (snd (add_plain env p index c)) p) = enabled (store c p) \<and>
         needsSwap (store (snd (add_plain env p index c)) p) = needsSwap (store c p) \<and>
         needsDepthTexture (store (snd (add_plain env p index c)) p) = needsDepthTexture (store c p) \<and>
         render_throws (store (snd (add_plain env p index c)) p) = render_throws (store c p)"
proof -
  obtain rd where rd: "renderer c = Some rd" using assms(2) by auto
  define c1 where "c1 = modify_pass p (\<lambda>ps. ps\<lparr>p_size := Some (drawingBufferSize rd), p_initialized := True\<rparr>) c"
  define c2 where "c2 = (if autoRenderToScreen c1 \<and> passes c1 \<noteq> []
                     then modify_pass (last (passes c1)) (\<lambda>ps. ps\<lparr>renderToScreen := False\<rparr>) c1
                     else c1)"
  define c3 where "c3 = (if autoRenderToScreen c2 \<and> renderToScreen (store c2 p)
                     then c2\<lparr>autoRenderToScreen := False\<rparr> else c2)"
  define c4 where "c4 = c3\<lparr>passes := insert_pass index p (passes c3)\<rparr>"
  define c5 where "c5 = (if autoRenderToScreen c4
                     then modify_pass (last (passes c4)) (\<lambda>ps. ps\<lparr>renderToScreen := True\<rparr>) c4
                     else c4)"
  have r: "add_plain env p index c = (Returned (), provide_depthTexture p c5)"
    unfolding add_plain_returned [OF rd assms(3)] c5_def c4_def c3_def c2_def c1_def Let_def ..
  have f: "passes c5 = [p]" "cls (store c5 p) = cls (store c p)" "enabled (store c5 p) = enabled (store c p)"
     "needsSwap (store c5 p) = needsSwap (store c p)"
     "needsDepthTexture (store c5 p) = needsDepthTexture (store c p)"
     "render_throws (store c5 p) = render_throws (store c p)"
    using assms(1) by (simp_all add: c5_def c4_def c3_def c2_def c1_def)
  show ?thesis unfolding r using f provide_depthTexture_keeps [of p c5] by simp
qed

lemma mrt_initialize_success:
  "fst (mrt_initialize r env new_MRTRenderPass) \<longleftrightarrow>
     (\<exists>rd. r = Some rd \<and> isWebGL2 rd) \<and> (\<exists>n. test_alloc env = AllocTextures (Some n)) \<and>
     (\<exists>n. target_alloc env = AllocTextures (Some n) \<and> 2 \<le> n)"
  by (auto simp: mrt_initialize_def createRenderTargets_def new_MRTRenderPass_def Let_def
      mrt_depthTexture_valid_def split: option.splits alloc_result.splits)

lemma new_composer_useMRT:
  "useMRT (new_composer r probe heap) \<longleftrightarrow>
     (\<exists>rd. r = Some rd \<and> isWebGL2 rd) \<and> probe = AllocTextures (Some 2)"
  by (auto simp: new_composer_def checkMRTSupport_def cleanupMRTResources_def Let_def
      split: option.splits)

lemma remove_at_indexOf:
  "indexOf ps p = Some i \<Longrightarrow> take i ps @ drop (Suc i) ps = remove1 p ps"
proof (induction ps arbitrary: i)
  case Nil
  then show ?case by simp
next
  case (Cons q qs)
  show ?case
  proof (cases "q = p")
    case True
    then show ?thesis using Cons.prems by simp
  next
    case False
    then obtain j where j: "indexOf qs p = Some j" "i = Suc j" using Cons.prems by auto
    show ?thesis using Cons.IH [OF j(1)] False j(2) by simp
  qed
qed

lemma removePass_passes:
  assumes "depth_inv c"
  shows "passes (removePass p c) = remove1 p (passes c)"
proof (cases "indexOf (passes c) p")
  case None
  then have "p \<notin> set (passes c)" by (rule indexOf_None)
  then show ?thesis using None by (simp add: removePass_def remove1_idem)
next
  case (Some i)
  then have il: "i < length (passes c)" using indexOf_Some by blast
  show ?thesis
    using removePass_shape [OF Some] removePass_core_facts [OF assms il, of p]
      remove_at_indexOf [OF Some] by simp
qed

lemma only_depth_pass:
  assumes "filter P ps = [p]"
  shows "p \<in> set ps" and "P p" and "p \<notin> set (remove1 p ps)" and "\<forall>q \<in> set (remove1 p ps). \<not> P q"
proof -
  have "p \<in> set (filter P ps)" unfolding assms by simp
  then show "p \<in> set ps" and pp: "P p" by simp_all
  have "filter P (remove1 p ps) = remove1 p (filter P ps)" by (rule filter_remove1)
  then have "filter P (remove1 p ps) = []" unfolding assms by simp
  then show n: "\<forall>q \<in> set (remove1 p ps). \<not> P q" by (simp add: filter_empty_conv)
  then show "p \<notin> set (remove1 p ps)" using pp by blast
qed

lemma example_composer0_facts:
  "passes example_composer0 = []" "cls (store example_composer0 (UserPass 0)) = RenderPassC"
  "renderer example_composer0 \<noteq> None" "useMRT example_composer0" "next_mrt example_composer0 = 0"
  by code_simp+

lemma example_composer2_facts:
  "passes example_composer2 = [MRTPass 0, UserPass 1]"
  "needsDepthTexture (store example_composer2 (UserPass 1))"
  "\<not> needsDepthTexture (store example_composer2 (MRTPass 0))"
  "depthTexture example_composer2 = Some 0"
  "passes (removePass (UserPass 1) example_composer2) = [MRTPass 0]"
  by code_simp+

lemma example_composer2_reachable: "reachable example_composer2"
proof -
  have r0: "reachable example_composer0"
    unfolding example_composer0_def by (rule reach_new)
  have r1: "reachable example_composer1"
    unfolding example_composer1_def using r0 by (rule reach_add)
  show ?thesis
    unfolding example_composer2_def using r1 by (rule reach_add)
qed

text \<open>
  Claim C5. In every state reached from a new composer by \<open>addPass\<close> and \<open>removePass\<close>
  calls: if some pass of the list has \<open>needsDepthTexture\<close>, the composer holds a depth
  texture, it is the only live one, and every pass of the list (so every depth-consuming
  one) has been given it by \<open>setDepthTexture\<close>; if no pass of the list has
  \<open>needsDepthTexture\<close>, there is no depth texture. \<open>removePass\<close> takes the first occurrence
  of the pass out of the list. And when \<open>p\<close> is the only pass of the list that has
  \<open>needsDepthTexture\<close>, removing it takes it out of the list, disposes the depth texture
  the composer held, leaves no live texture, and leaves neither a remaining pass nor the
  removed one holding a depth texture.
\<close>

theorem shared_depth_texture_lifecycle:
  assumes "reachable c"
  shows "((\<exists>p \<in> set (passes c). needsDepthTexture (store c p)) \<longrightarrow>
            (\<exists>t. depthTexture c = Some t \<and> live_textures c = [t] \<and>
                 (\<forall>p \<in> set (passes c). p_depthTexture (store c p) = Some t))) \<and>
         ((\<forall>p \<in> set (passes c). \<not> needsDepthTexture (store c p)) \<longrightarrow>
            depthTexture c = None \<and> live_textures c = []) \<and>
         (\<forall>p. passes (removePass p c) = remove1 p (passes c)) \<and>
         (\<forall>p. filter (\<lambda>q. needsDepthTexture (store c q)) (passes c) = [p] \<longrightarrow>
                p \<in> set (passes c) \<and> p \<notin> set (passes (removePass p c)) \<and>
                (\<exists>t. depthTexture c = Some t \<and> t \<in> set (disposed_textures (removePass p c))) \<and>
                depthTexture (removePass p c) = None \<and>
                live_textures (removePass p c) = [] \<and>
                (\<forall>q \<in> set (passes (removePass p c)). p_depthTexture (store (removePass p c) q) = None) \<and>
                p_depthTexture (store (removePass p c) p) = None)"
proof -
  have inv: "depth_inv c" using assms by (rule reachable_inv)
  have a: "(\<exists>p \<in> set (passes c). needsDepthTexture (store c p)) \<longrightarrow>
            (\<exists>t. depthTexture c = Some t \<and> live_textures c = [t] \<and>
                 (\<forall>p \<in> set (passes c). p_depthTexture (store c p) = Some t))"
    using inv by (cases "depthTexture c") (auto simp: depth_inv_def)
  have b: "(\<forall>p \<in> set (passes c). \<not> needsDepthTexture (store c p)) \<longrightarrow>
            depthTexture c = None \<and> live_textures c = []"
    using inv by (cases "depthTexture c") (auto simp: depth_inv_def)
  have r: "\<forall>p. passes (removePass p c) = remove1 p (passes c)"
    using removePass_passes [OF inv] by blast
  have c: "p \<in> set (passes c) \<and> p \<notin> set (passes (removePass p c)) \<and>
                (\<exists>t. depthTexture c = Some t \<and> t \<in> set (disposed_textures (removePass p c))) \<and>
                depthTexture (removePass p c) = None \<and>
                live_textures (removePass p c) = [] \<and>
                (\<forall>q \<in> set (passes (removePass p c)). p_depthTexture (store (removePass p c) q) = None) \<and>
                p_depthTexture (store (removePass p c) p) = None"
    if h: "filter (\<lambda>q. needsDepthTexture (store c q)) (passes c) = [p]" for p
  proof -
    note o = only_depth_pass [OF h]
    obtain t where t: "depthTexture c = Some t"
      using a o(1,2) by blast
    obtain i where i: "indexOf (passes c) p = Some i"
      using o(1) indexOf_None by (cases "indexOf (passes c) p") auto
    then have il: "i < length (passes c)" using indexOf_Some by blast
    note sh = removePass_shape [OF i]
    note co = removePass_core_facts [OF inv il, of p]
    have ps: "take i (passes c) @ drop (Suc i) (passes c) = remove1 p (passes c)"
      using i by (rule remove_at_indexOf)
    have pr: "passes (removePass p c) = remove1 p (passes c)"
      using r by blast
    have pt: "p_depthTexture (store c p) = Some t"
      using inv o(1) t by (auto simp: depth_inv_def)
    have "depthTexture (removePass_core p i c) = None \<and>
              live_textures (removePass_core p i c) = [] \<and>
              disposed_textures (removePass_core p i c) = disposed_textures c @ [t] \<and>
              (\<forall>q \<in> set (remove1 p (passes c)).
                 p_depthTexture (store (removePass_core p i c) q) = None) \<and>
              p_depthTexture (store (removePass_core p i c) p) = None"
      using co t o(4) pt unfolding ps by blast
    then show ?thesis using sh o(1,3) t unfolding pr by simp
  qed
  show ?thesis using a b r c by blast
qed

theorem shared_depth_texture_lifecycle_witness:
  "reachable example_composer2 \<and>
   passes example_composer2 = [MRTPass 0, UserPass 1] \<and>
   needsDepthTexture (store example_composer2 (UserPass 1)) \<and>
   filter (\<lambda>q. needsDepthTexture (store example_composer2 q)) (passes example_composer2) =
     [UserPass 1] \<and>
   depthTexture example_composer2 = Some 0 \<and>
   live_textures example_composer2 = [0] \<and>
   p_depthTexture (store example_composer2 (MRTPass 0)) = Some 0 \<and>
   p_depthTexture (store example_composer2 (UserPass 1)) = Some 0 \<and>
   passes (removePass (UserPass 1) example_composer2) = [MRTPass 0] \<and>
   depthTexture (removePass (UserPass 1) example_composer2) = None \<and>
   live_textures (removePass (UserPass 1) example_composer2) = [] \<and>
   0 \<in> set (disposed_textures (removePass (UserPass 1) example_composer2)) \<and>
   p_depthTexture (store (removePass (UserPass 1) example_composer2) (MRTPass 0)) = None \<and>
   p_depthTexture (store (removePass (UserPass 1) example_composer2) (UserPass 1)) = None"
proof -
  note f = example_composer2_facts
  note t = shared_depth_texture_lifecycle [OF example_composer2_reachable]
  have a: "\<exists>p \<in> set (passes example_composer2). needsDepthTexture (store example_composer2 p)"
    using f(1,2) by simp
  from t a obtain u where u: "depthTexture example_composer2 = Some u"
      "live_textures example_composer2 = [u]"
      "\<forall>p \<in> set (passes example_composer2). p_depthTexture (store example_composer2 p) = Some u"
    by blast
  have u0: "u = 0" using u(1) f(4) by simp
  have b: "filter (\<lambda>q. needsDepthTexture (store example_composer2 q)) (passes example_composer2) =
     [UserPass 1]"
    using f(1,2,3) by simp
  from t b have r: "depthTexture (removePass (UserPass 1) example_composer2) = None \<and>
      live_textures (removePass (UserPass 1) example_composer2) = [] \<and>
      (\<exists>t. depthTexture example_composer2 = Some t \<and>
           t \<in> set (disposed_textures (removePass (UserPass 1) example_composer2))) \<and>
      (\<forall>q \<in> set (passes (removePass (UserPass 1) example_composer2)).
          p_depthTexture (store (removePass (UserPass 1) example_composer2) q) = None) \<and>
      p_depthTexture (store (removePass (UserPass 1) example_composer2) (UserPass 1)) = None"
    by blast
  then have d: "0 \<in> set (disposed_textures (removePass (UserPass 1) example_composer2))"
    using f(4) by auto
  show ?thesis using example_composer2_reachable f u u0 b r d by simp
qed

lemma addPass_first:
  assumes "passes c = []" "cls (store c (UserPass k)) = RenderPassC"
  shows
    "(useMRT c \<and> \<not> ctor_throws env \<and> renderer c \<noteq> None \<and> \<not> mrt_context_throws env \<and>
      fst (mrt_initialize (renderer c) env new_MRTRenderPass) \<longrightarrow>
        fst (addPass env (UserPass k) index c) = Returned () \<and>
        passes (snd (addPass env (UserPass k) index c)) = [MRTPass (next_mrt c)] \<and>
        cls (store (snd (addPass env (UserPass k) index c)) (MRTPass (next_mrt c))) = MRTRenderPassC) \<and>
     (\<not> (useMRT c \<and> \<not> ctor_throws env \<and> renderer c \<noteq> None \<and> \<not> mrt_context_throws env \<and>
         fst (mrt_initialize (renderer c) env new_MRTRenderPass)) \<and>
      renderer c \<noteq> None \<and> \<not> context_throws env \<longrightarrow>
        fst (addPass env (UserPass k) index c) = Returned () \<and>
        passes (snd (addPass env (UserPass k) index c)) = [UserPass k] \<and>
        cls (store (snd (addPass env (UserPass k) index c)) (UserPass k)) = RenderPassC \<and>
        enabled (store (snd (addPass env (UserPass k) index c)) (UserPass k)) =
          enabled (store c (UserPass k)) \<and>
        needsSwap (store (snd (addPass env (UserPass k) index c)) (UserPass k)) =
          needsSwap (store c (UserPass k)) \<and>
        needsDepthTexture (store (snd (addPass env (UserPass k) index c)) (UserPass k)) =
          needsDepthTexture (store c (UserPass k)) \<and>
        render_throws (store (snd (addPass env (UserPass k) index c)) (UserPass k)) =
          render_throws (store c (UserPass k))) \<and>
     (\<not> (useMRT c \<and> \<not> ctor_throws env \<and> renderer c \<noteq> None \<and> \<not> mrt_context_throws env \<and>
         fst (mrt_initialize (renderer c) env new_MRTRenderPass)) \<and>
      (renderer c = None \<or> context_throws env) \<longrightarrow>
        fst (addPass env (UserPass k) index c) = Thrown TypeError \<and>
        passes (snd (addPass env (UserPass k) index c)) = [] \<and>
        store (snd (addPass env (UserPass k) index c)) (UserPass k) = store c (UserPass k))"
proof (cases "useMRT c")
  case False
  then have e: "addPass env (UserPass k) index c = add_plain env (UserPass k) index c"
    by (simp add: addPass_def)
  show ?thesis
  proof (cases "renderer c = None \<or> context_throws env")
    case True
    then show ?thesis unfolding e add_plain_thrown [OF True] using False assms(1) by auto
  next
    case F: False
    then have h: "renderer c \<noteq> None" "\<not> context_throws env" by simp_all
    show ?thesis unfolding e
      using add_plain_first [OF assms(1) h, of "UserPass k" index] assms(2) False h by auto
  qed
next
  case True
  obtain r c1 where s: "setMRTRenderPass env c = (r, c1)" by (cases "setMRTRenderPass env c")
  note f = setMRTRenderPass_facts [OF s]
  show ?thesis
  proof (cases r)
    case None
    then have n: "\<not> (useMRT c \<and> \<not> ctor_throws env \<and> renderer c \<noteq> None \<and> \<not> mrt_context_throws env \<and>
         fst (mrt_initialize (renderer c) env new_MRTRenderPass))"
      using f by auto
    have e: "addPass env (UserPass k) index c = add_plain env (UserPass k) index c1"
      using True assms s None by (simp add: addPass_def)
    have c1: "passes c1 = []" "renderer c1 = renderer c" "store c1 (UserPass k) = store c (UserPass k)"
      using f assms by auto
    show ?thesis
    proof (cases "renderer c = None \<or> context_throws env")
      case T: True
      then have "renderer c1 = None \<or> context_throws env" using c1(2) by simp
      then show ?thesis unfolding e using add_plain_thrown [of c1 env "UserPass k" index] n c1 T
        by auto
    next
      case F: False
      then have h: "renderer c1 \<noteq> None" "\<not> context_throws env" using c1(2) by simp_all
      show ?thesis unfolding e
        using add_plain_first [OF c1(1) h, of "UserPass k" index] n c1(3) assms(2) F by auto
    qed
  next
    case (Some q)
    then have y: "useMRT c \<and> \<not> ctor_throws env \<and> renderer c \<noteq> None \<and> \<not> mrt_context_throws env \<and>
         fst (mrt_initialize (renderer c) env new_MRTRenderPass)"
      and q: "q = MRTPass (next_mrt c)" "cls (store c1 q) = MRTRenderPassC"
      using f by auto
    obtain rd where rd: "renderer c1 = Some rd" using f y by auto
    have "addPass env (UserPass k) index c =
       (Returned (), (modify_pass q (\<lambda>ps. ps\<lparr>p_size := Some (drawingBufferSize rd)\<rparr>) c1)
                         \<lparr>passes := passes c1 @ [q]\<rparr>)"
      using True assms s Some rd by (simp add: addPass_def)
    then show ?thesis using y q f assms(1) by simp
  qed
qed

text \<open>
  Claim C6, as stated, fails: capability absent does not imply that the original pass is
  added. A composer constructed without a renderer has no multi-target capability, and
  adding a scene-render pass as its first pass throws a \<open>TypeError\<close> at line 656 and leaves
  the list empty. The same happens on a composer with a renderer when the substitute's
  \<open>initialize\<close> fails and the context query of line 657 throws.
\<close>

theorem addPass_first_throws:
  "passes (new_composer None (AllocTextures (Some 2)) example_heap) = [] \<and>
   cls (store (new_composer None (AllocTextures (Some 2)) example_heap) (UserPass 0)) = RenderPassC \<and>
   \<not> useMRT (new_composer None (AllocTextures (Some 2)) example_heap) \<and>
   fst (addPass
      \<lparr>ctor_throws = False, mrt_context_throws = False, context_throws = False,
       test_alloc = AllocTextures (Some 2), target_alloc = AllocTextures (Some 2)\<rparr>
      (UserPass 0) None (new_composer None (AllocTextures (Some 2)) example_heap)) =
     Thrown TypeError \<and>
   passes (snd (addPass
      \<lparr>ctor_throws = False, mrt_context_throws = False, context_throws = False,
       test_alloc = AllocTextures (Some 2), target_alloc = AllocTextures (Some 2)\<rparr>
      (UserPass 0) None (new_composer None (AllocTextures (Some 2)) example_heap))) = [] \<and>
   passes (new_composer (Some example_renderer) (AllocTextures (Some 2)) example_heap) = [] \<and>
   useMRT (new_composer (Some example_renderer) (AllocTextures (Some 2)) example_heap) \<and>
   \<not> fst (mrt_initialize (Some example_renderer)
      \<lparr>ctor_throws = False, mrt_context_throws = False, context_throws = True,
       test_alloc = AllocThrows, target_alloc = AllocTextures (Some 2)\<rparr> new_MRTRenderPass) \<and>
   fst (addPass
      \<lparr>ctor_throws = False, mrt_context_throws = False, context_throws = True,
       test_alloc = AllocThrows, target_alloc = AllocTextures (Some 2)\<rparr>
      (UserPass 0) None
      (new_composer (Some example_renderer) (AllocTextures (Some 2)) example_heap)) =
     Thrown TypeError \<and>
   passes (snd (addPass
      \<lparr>ctor_throws = False, mrt_context_throws = False, context_throws = True,
       test_alloc = AllocThrows, target_alloc = AllocTextures (Some 2)\<rparr>
      (UserPass 0) None
      (new_composer (Some example_renderer) (AllocTextures (Some 2)) example_heap))) = []"
  by code_simp

text \<open>
  Claim C6, amended. Take an \<open>addPass\<close> call that adds a plain scene-render pass as the
  very first pass. The list then holds the multi-target substitute, and only it, exactly
  when the capability probe had succeeded (\<open>useMRT\<close>), the composer has a renderer, the
  substitute could be constructed, the context query in \<open>setMRTRenderPass\<close> did not throw
  and the substitute's \<open>initialize\<close> returned success. In every other case the call adds
  the original pass, with its class and flags as they were, provided that the composer
  has a renderer and the context query of \<open>addPass\<close> does not throw; otherwise the call
  throws a \<open>TypeError\<close> and adds nothing. The substitute's \<open>initialize\<close> succeeds exactly
  when the context is WebGL 2, its test allocation returns a target with a \<open>textures\<close>
  array and its render target comes with at least two textures; the probe succeeds
  exactly when the context is WebGL 2 and the probe's allocation returns exactly two
  textures.
\<close>

theorem addPass_first_render_pass:
  assumes "passes c = []" "cls (store c (UserPass k)) = RenderPassC"
  shows
    "(useMRT c \<and> \<not> ctor_throws env \<and> renderer c \<noteq> None \<and> \<not> mrt_context_throws env \<and>
      fst (mrt_initialize (renderer c) env new_MRTRenderPass) \<longrightarrow>
        fst (addPass env (UserPass k) index c) = Returned () \<and>
        passes (snd (addPass env (UserPass k) index c)) = [MRTPass (next_mrt c)] \<and>
        cls (store (snd (addPass env (UserPass k) index c)) (MRTPass (next_mrt c))) = MRTRenderPassC) \<and>
     (\<not> (useMRT c \<and> \<not> ctor_throws env \<and> renderer c \<noteq> None \<and> \<not> mrt_context_throws env \<and>
         fst (mrt_initialize (renderer c) env new_MRTRenderPass)) \<and>
      renderer c \<noteq> None \<and> \<not> context_throws env \<longrightarrow>
        fst (addPass env (UserPass k) index c) = Returned () \<and>
        passes (snd (addPass env (UserPass k) index c)) = [UserPass k] \<and>
        cls (store (snd (addPass env (UserPass k) index c)) (UserPass k)) = RenderPassC \<and>
        enabled (store (snd (addPass env (UserPass k) index c)) (UserPass k)) =
          enabled (store c (UserPass k)) \<and>
        needsSwap (store (snd (addPass env (UserPass k) index c)) (UserPass k)) =
          needsSwap (store c (UserPass k)) \<and>
        needsDepthTexture (store (snd (addPass env (UserPass k) index c)) (UserPass k)) =
          needsDepthTexture (store c (UserPass k)) \<and>
        render_throws (store (snd (addPass env (UserPass k) index c)) (UserPass k)) =
          render_throws (store c (UserPass k))) \<and>
     (\<not> (useMRT c \<and> \<not> ctor_throws env \<and> renderer c \<noteq> None \<and> \<not> mrt_context_throws env \<and>
         fst (mrt_initialize (renderer c) env new_MRTRenderPass)) \<and>
      (renderer c = None \<or> context_throws env) \<longrightarrow>
        fst (addPass env (UserPass k) index c) = Thrown TypeError \<and>
        passes (snd (addPass env (UserPass k) index c)) = [] \<and>
        store (snd (addPass env (UserPass k) index c)) (UserPass k) = store c (UserPass k)) \<and>
     (fst (mrt_initialize (renderer c) env new_MRTRenderPass) \<longleftrightarrow>
        (\<exists>rd. renderer c = Some rd \<and> isWebGL2 rd) \<and>
        (\<exists>n. test_alloc env = AllocTextures (Some n)) \<and>
        (\<exists>n. target_alloc env = AllocTextures (Some n) \<and> 2 \<le> n)) \<and>
     (useMRT (new_composer r probe heap) \<longleftrightarrow>
        (\<exists>rd. r = Some rd \<and> isWebGL2 rd) \<and> probe = AllocTextures (Some 2))"
  using addPass_first [OF assms, of env index] mrt_initialize_success [of "renderer c" env]
    new_composer_useMRT [of r probe heap]
  by blast

theorem addPass_first_render_pass_witness:
  "passes example_composer0 = [] \<and> cls (store example_composer0 (UserPass 0)) = RenderPassC \<and>
   renderer example_composer0 \<noteq> None \<and> useMRT example_composer0 \<and>
   \<not> ctor_throws example_env \<and> \<not> mrt_context_throws example_env \<and>
   fst (mrt_initialize (renderer example_composer0) example_env new_MRTRenderPass) \<and>
   fst (addPass example_env (UserPass 0) None example_composer0) = Returned () \<and>
   passes (snd (addPass example_env (UserPass 0) None example_composer0)) = [MRTPass 0] \<and>
   \<not> fst (mrt_initialize (renderer example_composer0) failing_env new_MRTRenderPass) \<and>
   \<not> context_throws failing_env \<and>
   fst (addPass failing_env (UserPass 0) None example_composer0) = Returned () \<and>
   passes (snd (addPass failing_env (UserPass 0) None example_composer0)) = [UserPass 0] \<and>
   context_throws (failing_env\<lparr>context_throws := True\<rparr>) \<and>
   \<not> fst (mrt_initialize (renderer example_composer0) (failing_env\<lparr>context_throws := True\<rparr>)
          new_MRTRenderPass) \<and>
   fst (addPass (failing_env\<lparr>context_throws := True\<rparr>) (UserPass 0) None example_composer0) =
     Thrown TypeError \<and>
   passes (snd (addPass (failing_env\<lparr>context_throws := True\<rparr>) (UserPass 0) None
     example_composer0)) = []"
proof -
  note f = example_composer0_facts
  have e: "\<not> ctor_throws example_env" "\<not> mrt_context_throws example_env"
     "fst (mrt_initialize (renderer example_composer0) example_env new_MRTRenderPass)"
     "\<not> fst (mrt_initialize (renderer example_composer0) failing_env new_MRTRenderPass)"
     "\<not> context_throws failing_env"
     "context_throws (failing_env\<lparr>context_throws := True\<rparr>)"
     "\<not> fst (mrt_initialize (renderer example_composer0) (failing_env\<lparr>context_throws := True\<rparr>)
          new_MRTRenderPass)"
    by code_simp+
  from addPass_first_render_pass [OF f(1,2), of example_env None] f(3,4,5) e
  have a: "fst (addPass example_env (UserPass 0) None example_composer0) = Returned () \<and>
      passes (snd (addPass example_env (UserPass 0) None example_composer0)) = [MRTPass 0]"
    by simp
  from addPass_first_render_pass [OF f(1,2), of failing_env None] f(3) e
  have b: "fst (addPass failing_env (UserPass 0) None example_composer0) = Returned () \<and>
      passes (snd (addPass failing_env (UserPass 0) None example_composer0)) = [UserPass 0]"
    by simp
  from addPass_first_render_pass [OF f(1,2), of "failing_env\<lparr>context_throws := True\<rparr>" None] e
  have c: "fst (addPass (failing_env\<lparr>context_throws := True\<rparr>) (UserPass 0) None
        example_composer0) = Thrown TypeError \<and>
      passes (snd (addPass (failing_env\<lparr>context_throws := True\<rparr>) (UserPass 0) None
        example_composer0)) = []"
    by simp
  show ?thesis using f e a b c by simp
qed

end
